theory Spec2Isabelle
  imports Main "HOL-Library.AList" "HOL-Library.Word"
begin

section \<open>Event channel: \<open>IsoEventEmitter\<close>\<close>

text \<open>
  The emitter keeps one field, \<open>callbacks\<close>, a record from event names to arrays of
  callbacks. It is modelled as a partial map from events to callback lists: a missing
  key is JavaScript's \<open>undefined\<close>, and an array (also an empty one) is truthy, so
  \<open>if (this.callbacks[event])\<close> and \<open>if (!this.callbacks[event])\<close> test exactly
  whether the key is present. Callbacks are compared by identity in the source
  (\<open>===\<close>); the model compares the values of an arbitrary type \<open>'cb\<close>. The
  properties that the record inherits from \<open>Object.prototype\<close> (an event named
  \<open>constructor\<close>, say) are outside the model.
\<close>

type_synonym ('e, 'cb) callbacks = "'e \<rightharpoonup> 'cb list"

definition emitter_new :: "('e, 'cb) callbacks" where
  "emitter_new = Map.empty"

text \<open>\<open>emit\<close> calls every callback registered for the event, in order: the model
  returns the list of callbacks that are called.\<close>

definition emit :: "'e \<Rightarrow> ('e, 'cb) callbacks \<Rightarrow> 'cb list" where
  "emit event cbs = (case cbs event of None \<Rightarrow> [] | Some callbacks \<Rightarrow> callbacks)"

definition subscribe :: "'e \<Rightarrow> 'cb \<Rightarrow> ('e, 'cb) callbacks \<Rightarrow> ('e, 'cb) callbacks" where
  "subscribe event callback cbs =
     (let cbs1 = (case cbs event of None \<Rightarrow> cbs(event \<mapsto> []) | Some _ \<Rightarrow> cbs)
      in case cbs1 event of
           None \<Rightarrow> cbs1
         | Some callbacks \<Rightarrow> cbs1(event \<mapsto> callbacks @ [callback]))"

text \<open>\<open>unsubscribe\<close> walks the array from its end and splices out every entry equal to
  the callback: what is left is the array without these entries, in order.\<close>

definition unsubscribe :: "'e \<Rightarrow> 'cb \<Rightarrow> ('e, 'cb) callbacks \<Rightarrow> ('e, 'cb) callbacks" where
  "unsubscribe event callback cbs =
     (let cbs1 = (case cbs event of None \<Rightarrow> cbs(event \<mapsto> []) | Some _ \<Rightarrow> cbs)
      in case cbs1 event of
           None \<Rightarrow> cbs1
         | Some callbacks \<Rightarrow> cbs1(event \<mapsto> filter (\<lambda>c. c \<noteq> callback) callbacks))"

text \<open>\<open>unsubscribeAll\<close> returns the new state of the emitter and the number \<open>cbCount\<close>.\<close>

definition unsubscribeAll :: "'e \<Rightarrow> ('e, 'cb) callbacks \<Rightarrow> ('e, 'cb) callbacks \<times> nat" where
  "unsubscribeAll event cbs =
     (case cbs event of
        None \<Rightarrow> (cbs, 0)
      | Some callbacks \<Rightarrow> (cbs(event \<mapsto> []), length callbacks))"

definition listenerCount :: "'e \<Rightarrow> ('e, 'cb) callbacks \<Rightarrow> nat" where
  "listenerCount event cbs = (case cbs event of None \<Rightarrow> 0 | Some callbacks \<Rightarrow> length callbacks)"


section \<open>Error taxonomy: the standard error codes\<close>

text \<open>The constant object \<open>JsonRpcErrorCodes\<close> of the errors module, and
  \<open>standardErrorCodes = Object.values(JsonRpcErrorCodes)\<close>.\<close>

record error_codes =
  PARSE_ERROR :: int
  INVALID_REQUEST :: int
  METHOD_NOT_FOUND :: int
  INVALID_PARAMETERS :: int
  INTERNAL_SERVER_ERROR :: int
  RESOURCE_NOT_FOUND :: int

definition JsonRpcErrorCodes :: error_codes where
  "JsonRpcErrorCodes =
     \<lparr> PARSE_ERROR = - 32700,
       INVALID_REQUEST = - 32600,
       METHOD_NOT_FOUND = - 32601,
       INVALID_PARAMETERS = - 32606,
       INTERNAL_SERVER_ERROR = - 32603,
       RESOURCE_NOT_FOUND = - 32004 \<rparr>"

definition standardErrorCodes :: "int list" where
  "standardErrorCodes =
     [PARSE_ERROR JsonRpcErrorCodes, INVALID_REQUEST JsonRpcErrorCodes,
      METHOD_NOT_FOUND JsonRpcErrorCodes, INVALID_PARAMETERS JsonRpcErrorCodes,
      INTERNAL_SERVER_ERROR JsonRpcErrorCodes, RESOURCE_NOT_FOUND JsonRpcErrorCodes]"


section \<open>Stream transport: \<open>TargetClient\<close>\<close>

subsection \<open>Strings\<close>

text \<open>
  A JavaScript string is a sequence of UTF-16 code units. \<open>split_on d\<close> is
  \<open>String.prototype.split\<close> with a one-unit separator: a string with \<open>n\<close> separators
  gives \<open>n + 1\<close> pieces, the empty string gives one empty piece. \<open>trim\<close> is
  \<open>String.prototype.trim\<close>: it removes the white space and line terminators of
  ECMAScript from both ends (all of them are single code units).
\<close>

type_synonym jsstring = "16 word list"

definition newline :: "16 word" where
  "newline = 0x0A"

fun split_on :: "'a \<Rightarrow> 'a list \<Rightarrow> 'a list list" where
  "split_on d [] = [[]]"
| "split_on d (c # cs) =
     (if c = d then [] # split_on d cs
      else (case split_on d cs of
              [] \<Rightarrow> [[c]]
            | piece # pieces \<Rightarrow> (c # piece) # pieces))"

definition is_ws :: "16 word \<Rightarrow> bool" where
  "is_ws c \<longleftrightarrow>
     c = 0x09 \<or> c = 0x0A \<or> c = 0x0B \<or> c = 0x0C \<or> c = 0x0D \<or> c = 0x20 \<or> c = 0xA0
     \<or> c = 0x1680 \<or> (0x2000 \<le> c \<and> c \<le> 0x200A) \<or> c = 0x2028 \<or> c = 0x2029
     \<or> c = 0x202F \<or> c = 0x205F \<or> c = 0x3000 \<or> c = 0xFEFF"

definition trim :: "jsstring \<Rightarrow> jsstring" where
  "trim s = rev (dropWhile is_ws (rev (dropWhile is_ws s)))"

text \<open>\<open>Array.prototype.pop\<close>: the last element (or \<open>undefined\<close>) and the array without it.\<close>

definition pop :: "'a list \<Rightarrow> 'a option \<times> 'a list" where
  "pop xs = (if xs = [] then (None, []) else (Some (last xs), butlast xs))"

subsection \<open>State and effects\<close>

text \<open>
  The fields of the class, and its options after the defaults of the constructor.
  A promise is named by a number: \<open>resolve\<close> and \<open>reject\<close> of a \<open>PendingMessage\<close> are
  the two functions of one promise. What a method does to the world outside the object
  is returned as a list of effects, in the order of the source: a timer that is cleared,
  a promise that is resolved or rejected, an event that is emitted to the listeners, a
  reconnect timer that is set (with its delay); \<open>Received\<close> marks each call of
  \<open>processResponse\<close> with its argument, the framed message. Logger calls are left out.

  The class extends the event emitter of \<open>node:events\<close>. What the model keeps of the
  emitter's state is the number of listeners registered for the \<open>error\<close> event: when
  an \<open>error\<close> event is emitted and no listener is registered for it, \<open>emit\<close> throws
  the error. For every other event, and for \<open>error\<close> with a listener, \<open>emit\<close> calls
  the listeners and returns; the listeners are the caller's code and are taken to
  return. A method that can end with an exception returns \<open>Inl\<close> with the exception and
  the state it leaves behind, and \<open>Inr\<close> with effects and state otherwise.
\<close>

record pending_message =
  pm_message :: jsstring
  pm_promise :: nat
  pm_timeoutId :: nat

record target_options =
  reconnectDelay :: nat
  maxReconnectAttempts :: nat
  messageTimeout :: nat

definition default_target_options :: target_options where
  "default_target_options =
     \<lparr> reconnectDelay = 1000, maxReconnectAttempts = 5, messageTimeout = 10000 \<rparr>"

record target_client =
  socket :: bool
  buffer :: jsstring
  isConnected :: bool
  isConnecting :: bool
  reconnectAttempts :: nat
  messageQueue :: "pending_message list"
  isShuttingDown :: bool
  errorListeners :: nat

definition target_client_new :: target_client where
  "target_client_new =
     \<lparr> socket = False, buffer = [], isConnected = False, isConnecting = False,
       reconnectAttempts = 0, messageQueue = [], isShuttingDown = False,
       errorListeners = 0 \<rparr>"

datatype tc_effect =
    Received jsstring
  | ClearTimeout nat
  | Resolve nat jsstring
  | Reject nat string
  | Emit string
  | SetTimeout nat

subsection \<open>Framing and response matching\<close>

definition processResponse :: "jsstring \<Rightarrow> target_client \<Rightarrow> tc_effect list \<times> target_client" where
  "processResponse response s =
     (case messageQueue s of
        [] \<Rightarrow> ([Received response], s)
      | pending # rest \<Rightarrow>
          ([Received response, ClearTimeout (pm_timeoutId pending),
            Resolve (pm_promise pending) response],
           s\<lparr>messageQueue := rest\<rparr>))"

text \<open>The loop \<open>for (const message of messages)\<close> of \<open>handleData\<close>.\<close>

fun processMessages :: "jsstring list \<Rightarrow> target_client \<Rightarrow> tc_effect list \<times> target_client" where
  "processMessages [] s = ([], s)"
| "processMessages (message # messages) s =
     (if trim message \<noteq> [] then
        (case processResponse (trim message) s of
           (es1, s1) \<Rightarrow> (case processMessages messages s1 of (es2, s2) \<Rightarrow> (es1 @ es2, s2)))
      else processMessages messages s)"

definition handleData :: "jsstring \<Rightarrow> target_client \<Rightarrow> tc_effect list \<times> target_client" where
  "handleData data s =
     (let buf = buffer s @ data;
          (popped, messages) = pop (split_on newline buf);
          s1 = s\<lparr>buffer := (case popped of None \<Rightarrow> [] | Some tail \<Rightarrow> tail)\<rparr>
      in processMessages messages s1)"

text \<open>The socket's \<open>data\<close> events one after the other.\<close>

fun handleChunks :: "jsstring list \<Rightarrow> target_client \<Rightarrow> tc_effect list \<times> target_client" where
  "handleChunks [] s = ([], s)"
| "handleChunks (data # chunks) s =
     (case handleData data s of
        (es1, s1) \<Rightarrow> (case handleChunks chunks s1 of (es2, s2) \<Rightarrow> (es1 @ es2, s2)))"

text \<open>The framed messages among the effects: the arguments of \<open>processResponse\<close>.\<close>

fun frames :: "tc_effect list \<Rightarrow> jsstring list" where
  "frames [] = []"
| "frames (Received m # es) = m # frames es"
| "frames (e # es) = frames es"

subsection \<open>Connection events and reconnection\<close>

definition scheduleReconnect :: "target_options \<Rightarrow> target_client \<Rightarrow> tc_effect list \<times> target_client" where
  "scheduleReconnect opts s =
     (if reconnectAttempts s \<ge> maxReconnectAttempts opts then
        ([Emit ''maxReconnectAttemptsReached''], s)
      else
        (let s1 = s\<lparr>reconnectAttempts := reconnectAttempts s + 1\<rparr>;
             delay = reconnectDelay opts * reconnectAttempts s1
         in ([SetTimeout delay], s1)))"

definition handleConnection :: "target_client \<Rightarrow> tc_effect list \<times> target_client" where
  "handleConnection s =
     ([Emit ''connected''],
      s\<lparr>isConnected := True, isConnecting := False, reconnectAttempts := 0\<rparr>)"

datatype tc_exception = UnhandledError

text \<open>\<open>this.emit('error', error)\<close>: whether it throws.\<close>

definition emits_error :: "target_client \<Rightarrow> bool" where
  "emits_error s \<longleftrightarrow> errorListeners s = 0"

definition handleConnectionError :: "target_options \<Rightarrow> target_client \<Rightarrow> (tc_exception \<times> target_client) + (tc_effect list \<times> target_client)" where
  "handleConnectionError opts s =
     (let s1 = s\<lparr>isConnecting := False\<rparr>
      in if emits_error s1 then Inl (UnhandledError, s1)
         else if \<not> isShuttingDown s1 then
           (case scheduleReconnect opts s1 of (es, s2) \<Rightarrow> Inr (Emit ''error'' # es, s2))
         else Inr ([Emit ''error''], s1))"

definition rejectAll :: "string \<Rightarrow> pending_message list \<Rightarrow> tc_effect list" where
  "rejectAll reason queue =
     concat (map (\<lambda>pending. [ClearTimeout (pm_timeoutId pending), Reject (pm_promise pending) reason]) queue)"

definition handleDisconnection :: "target_options \<Rightarrow> target_client \<Rightarrow> tc_effect list \<times> target_client" where
  "handleDisconnection opts s =
     (let es1 = rejectAll ''Connection lost'' (messageQueue s) @ [Emit ''disconnected''];
          s1 = s\<lparr>isConnected := False, socket := False, buffer := [], messageQueue := []\<rparr>
      in if \<not> isShuttingDown s1 then
           (case scheduleReconnect opts s1 of (es, s2) \<Rightarrow> (es1 @ es, s2))
         else (es1, s1))"

text \<open>A run of calls of the two handlers with no successful connect in between, as the
  socket's events call them, and what it leaves among the effects: the reconnect timers
  with their delays, and the terminal signals. Each call is a callback of its own: when
  a handler ends with an exception, the run goes on from the state that this handler
  leaves, with the next call.\<close>

datatype conn_failure = Disconnection | ConnectionError

definition handleFailure :: "target_options \<Rightarrow> conn_failure \<Rightarrow> target_client \<Rightarrow> tc_effect list \<times> target_client" where
  "handleFailure opts f s =
     (case f of
        Disconnection \<Rightarrow> handleDisconnection opts s
      | ConnectionError \<Rightarrow>
          (case handleConnectionError opts s of
             Inl (e, s1) \<Rightarrow> ([], s1)
           | Inr r \<Rightarrow> r))"

fun failures :: "target_options \<Rightarrow> conn_failure list \<Rightarrow> target_client \<Rightarrow> tc_effect list \<times> target_client" where
  "failures opts [] s = ([], s)"
| "failures opts (f # fs) s =
     (case handleFailure opts f s of
        (es1, s1) \<Rightarrow> (case failures opts fs s1 of (es2, s2) \<Rightarrow> (es1 @ es2, s2)))"

definition is_reconnect_effect :: "tc_effect \<Rightarrow> bool" where
  "is_reconnect_effect e =
     (case e of SetTimeout _ \<Rightarrow> True
              | Emit name \<Rightarrow> name = ''maxReconnectAttemptsReached''
              | _ \<Rightarrow> False)"

definition reconnect_effects :: "tc_effect list \<Rightarrow> tc_effect list" where
  "reconnect_effects es = filter is_reconnect_effect es"


section \<open>Decoded values and schema validation\<close>

subsection \<open>Values\<close>

text \<open>
  What \<open>JSON.parse\<close> returns: \<open>null\<close>, a boolean, a number, a string, an array or an
  object. An object is the list of its own properties, in order, with distinct keys.
  Numbers are modelled by integers (the ids of the default generator and the error
  codes are integers; fractions, \<open>NaN\<close> and the infinities are outside the model).
  A value that may be \<open>undefined\<close> has type \<open>json option\<close>, with \<open>None\<close> for
  \<open>undefined\<close>.
\<close>

datatype json =
    JNull
  | JBool bool
  | JNum int
  | JStr string
  | JArr "json list"
  | JObj "(string \<times> json) list"

text \<open>\<open>v[k]\<close> for one of the property names the code reads (\<open>id\<close>, \<open>method\<close>,
  \<open>message\<close>, ...): no primitive and no array has such a property.\<close>

definition field :: "string \<Rightarrow> json \<Rightarrow> json option" where
  "field k v = (case v of JObj kvs \<Rightarrow> map_of kvs k | _ \<Rightarrow> None)"

text \<open>\<open>k in v\<close>: a \<open>TypeError\<close> (here \<open>None\<close>) when \<open>v\<close> is not an object, and
  \<open>Object.hasOwn(v, k)\<close> for an object \<open>v\<close>.\<close>

definition js_in :: "string \<Rightarrow> json \<Rightarrow> bool option" where
  "js_in k v =
     (case v of
        JObj kvs \<Rightarrow> Some (k \<in> fst ` set kvs)
      | JArr _ \<Rightarrow> Some False
      | _ \<Rightarrow> None)"

definition hasOwn :: "json \<Rightarrow> string \<Rightarrow> bool" where
  "hasOwn v k = (case v of JObj kvs \<Rightarrow> k \<in> fst ` set kvs | _ \<Rightarrow> False)"

text \<open>Truthiness, as \<open>if (v)\<close>, \<open>v && ...\<close> and \<open>v ? ... : ...\<close> test it.\<close>

fun truthy :: "json \<Rightarrow> bool" where
  "truthy JNull = False"
| "truthy (JBool b) = b"
| "truthy (JNum n) = (n \<noteq> 0)"
| "truthy (JStr s) = (s \<noteq> [])"
| "truthy (JArr _) = True"
| "truthy (JObj _) = True"

text \<open>The decimal digits of a number, and \<open>String(v)\<close>, which a template literal
  \<open>`${v}`\<close> and a property key \<open>o[v]\<close> apply to \<open>v\<close> (for numbers below \<open>10^21\<close> in
  absolute value, which JavaScript prints without exponent).\<close>

function show_nat :: "nat \<Rightarrow> string" where
  "show_nat n =
     (if n < 10 then [''0123456789'' ! n]
      else show_nat (n div 10) @ [''0123456789'' ! (n mod 10)])"
  by pat_completeness auto
termination
  by (relation "measure id") auto

declare show_nat.simps [simp del]

definition show_int :: "int \<Rightarrow> string" where
  "show_int i = (if i < 0 then CHR ''-'' # show_nat (nat (- i)) else show_nat (nat i))"

fun intercalate :: "string \<Rightarrow> string list \<Rightarrow> string" where
  "intercalate sep [] = []"
| "intercalate sep [x] = x"
| "intercalate sep (x # y # ys) = x @ sep @ intercalate sep (y # ys)"

fun js_string :: "json \<Rightarrow> string" where
  "js_string JNull = ''null''"
| "js_string (JBool b) = (if b then ''true'' else ''false'')"
| "js_string (JNum n) = show_int n"
| "js_string (JStr s) = s"
| "js_string (JArr vs) =
     intercalate '','' (map (\<lambda>v. if v = JNull then [] else js_string v) vs)"
| "js_string (JObj _) = ''[object Object]''"

definition template :: "json option \<Rightarrow> string" where
  "template v = (case v of None \<Rightarrow> ''undefined'' | Some x \<Rightarrow> js_string x)"

subsection \<open>The schema library\<close>

text \<open>
  The schemas are built with the validation library (an external collaborator); the
  combinators that the message schemas use are modelled here by what they accept and
  what they return. A schema checks a value that may be \<open>undefined\<close> and lists the issues
  it finds; for a value without issues it gives the parsed output. An object schema
  accepts an object (not an array, not \<open>null\<close>), checks each key of its shape against
  the property of that name (\<open>undefined\<close> when missing), and its output keeps only the
  keys of the shape; in strict mode a key outside the shape is an issue. \<open>any\<close> accepts
  every value, also \<open>undefined\<close>. A union accepts what one of its members accepts and
  returns the output of the first such member. \<open>refine\<close> adds an issue when its
  predicate is false. The text of an error (\<open>error.message\<close>) is the library's
  rendering of the issues: the functions that use it take the rendering as parameter.
\<close>

datatype zod_issue = Issue "string list" string

datatype zod_error = ZodError "zod_issue list"

record zschema =
  z_check :: "json option \<Rightarrow> zod_issue list"
  z_out :: "json \<Rightarrow> json"

fun at_key :: "string \<Rightarrow> zod_issue \<Rightarrow> zod_issue" where
  "at_key k (Issue path c) = Issue (k # path) c"

definition z_literal :: "string \<Rightarrow> zschema" where
  "z_literal s =
     \<lparr> z_check = (\<lambda>v. if v = Some (JStr s) then [] else [Issue [] ''invalid_value'']),
       z_out = (\<lambda>v. v) \<rparr>"

definition z_string :: zschema where
  "z_string =
     \<lparr> z_check = (\<lambda>v. case v of Some (JStr _) \<Rightarrow> [] | _ \<Rightarrow> [Issue [] ''invalid_type'']),
       z_out = (\<lambda>v. v) \<rparr>"

definition z_number :: zschema where
  "z_number =
     \<lparr> z_check = (\<lambda>v. case v of Some (JNum _) \<Rightarrow> [] | _ \<Rightarrow> [Issue [] ''invalid_type'']),
       z_out = (\<lambda>v. v) \<rparr>"

definition z_null :: zschema where
  "z_null =
     \<lparr> z_check = (\<lambda>v. case v of Some JNull \<Rightarrow> [] | _ \<Rightarrow> [Issue [] ''invalid_type'']),
       z_out = (\<lambda>v. v) \<rparr>"

definition z_any :: zschema where
  "z_any = \<lparr> z_check = (\<lambda>v. []), z_out = (\<lambda>v. v) \<rparr>"

definition z_optional :: "zschema \<Rightarrow> zschema" where
  "z_optional s =
     \<lparr> z_check = (\<lambda>v. case v of None \<Rightarrow> [] | Some _ \<Rightarrow> z_check s v),
       z_out = z_out s \<rparr>"

definition z_union :: "zschema list \<Rightarrow> zschema" where
  "z_union ss =
     \<lparr> z_check = (\<lambda>v. if list_ex (\<lambda>s. z_check s v = []) ss then []
                        else [Issue [] ''invalid_union'']),
       z_out = (\<lambda>v. case filter (\<lambda>s. z_check s (Some v) = []) ss of
                        [] \<Rightarrow> v
                      | s # _ \<Rightarrow> z_out s v) \<rparr>"

definition z_object :: "bool \<Rightarrow> (string \<times> zschema) list \<Rightarrow> zschema" where
  "z_object strict shape =
     \<lparr> z_check = (\<lambda>v. case v of
          Some (JObj kvs) \<Rightarrow>
            concat (map (\<lambda>(k, s). map (at_key k) (z_check s (map_of kvs k))) shape)
            @ (if strict \<and> filter (\<lambda>k. k \<notin> set (map fst shape)) (map fst kvs) \<noteq> []
               then [Issue [] ''unrecognized_keys''] else [])
        | _ \<Rightarrow> [Issue [] ''invalid_type'']),
       z_out = (\<lambda>v. case v of
          JObj kvs \<Rightarrow>
            JObj (List.map_filter
              (\<lambda>(k, s). map_option (\<lambda>x. (k, z_out s x)) (map_of kvs k)) shape)
        | _ \<Rightarrow> v) \<rparr>"

definition z_refine :: "(json \<Rightarrow> bool) \<Rightarrow> zschema \<Rightarrow> zschema" where
  "z_refine p s =
     \<lparr> z_check = (\<lambda>v. z_check s v @
          (case v of None \<Rightarrow> [] | Some x \<Rightarrow> if p x then [] else [Issue [] ''custom''])),
       z_out = z_out s \<rparr>"

text \<open>\<open>safeParse\<close>: the parsed output (\<open>Inr\<close>, the field \<open>data\<close>) or the error (\<open>Inl\<close>,
  the field \<open>error\<close>).\<close>

definition safeParse :: "zschema \<Rightarrow> json \<Rightarrow> zod_error + json" where
  "safeParse s v =
     (case z_check s (Some v) of
        [] \<Rightarrow> Inr (z_out s v)
      | issue # issues \<Rightarrow> Inl (ZodError (issue # issues)))"

definition success :: "zod_error + json \<Rightarrow> bool" where
  "success r = (case r of Inr _ \<Rightarrow> True | Inl _ \<Rightarrow> False)"

subsection \<open>The message schemas\<close>

text \<open>The strict mode of the notification schema is a flag of the object schema, so
  \<open>.refine(...).strict()\<close> of the source is written as the refinement of the strict
  object.\<close>

definition JsonRpcRequestSchema :: zschema where
  "JsonRpcRequestSchema =
     z_refine (\<lambda>obj. field ''method'' obj \<noteq> Some JNull)
       (z_object False
          [(''jsonrpc'', z_literal ''2.0''),
           (''method'', z_string),
           (''params'', z_optional z_any),
           (''id'', z_union [z_number, z_string])])"

definition JsonRpcSuccessResponseSchema :: zschema where
  "JsonRpcSuccessResponseSchema =
     z_object False
       [(''jsonrpc'', z_literal ''2.0''),
        (''result'', z_any),
        (''id'', z_union [z_number, z_string])]"

definition JsonRpcErrorResponseSchema :: zschema where
  "JsonRpcErrorResponseSchema =
     z_object False
       [(''jsonrpc'', z_literal ''2.0''),
        (''id'', z_union [z_number, z_string, z_null]),
        (''error'', z_object False
           [(''code'', z_number),
            (''message'', z_string),
            (''data'', z_optional z_any)])]"

definition JsonRpcResponseSchema :: zschema where
  "JsonRpcResponseSchema = z_union [JsonRpcSuccessResponseSchema, JsonRpcErrorResponseSchema]"

definition JsonRpcNotificationSchema :: zschema where
  "JsonRpcNotificationSchema =
     z_refine (\<lambda>obj. field ''params'' obj \<noteq> Some JNull)
       (z_object True
          [(''jsonrpc'', z_literal ''2.0''),
           (''method'', z_string),
           (''params'', z_optional z_any)])"

text \<open>The type guards of the types module that the client uses.\<close>

definition isJsonRpcSuccessResponse :: "json \<Rightarrow> bool" where
  "isJsonRpcSuccessResponse response \<longleftrightarrow>
     success (safeParse JsonRpcSuccessResponseSchema response) \<and> \<not> hasOwn response ''error''"

definition isJsonRpcErrorResponse :: "json \<Rightarrow> bool" where
  "isJsonRpcErrorResponse response \<longleftrightarrow>
     success (safeParse JsonRpcErrorResponseSchema response)"


section \<open>Server dispatcher: \<open>JsonRpcServer\<close>\<close>

text \<open>
  What a handler (or the dispatcher itself) throws: an instance of \<open>JsonRpcError\<close>
  (with the flag whether it is a \<open>CustomServerError\<close>, its \<open>requestId\<close>, \<open>code\<close>,
  \<open>message\<close> and \<open>data\<close>), another \<open>Error\<close> with its message, or any other value:
  \<open>undefined\<close> or a value such as \<open>null\<close>, \<open>0\<close>, a string or a plain object.
  A handler is a function that returns a result or throws (an asynchronous handler
  resolves or rejects; one that never settles is outside the model). The schema of a
  method's parameters is its \<open>parse\<close> function. The record of handlers is a partial
  map from property names. The methods return \<open>Inl\<close> for an exception that leaves the
  method and \<open>Inr\<close> for the value returned (\<open>None\<close> is \<open>null\<close>). The table of error
  codes that the server module imports is a parameter. Console output is left out, and so
  is the field \<open>fallback\<close>, which no method reads.
\<close>

datatype thrown =
    ThrownJsonRpcError bool "json option" int string "json option"
  | ThrownError string
  | ThrownValue "json option"

datatype 'a outcome = Returns 'a | Throws thrown

record request_handler =
  paramsSchema :: "json option \<Rightarrow> zod_error + json"
  handler :: "json \<Rightarrow> json outcome"

record notification_handler =
  n_paramsSchema :: "json option \<Rightarrow> zod_error + json"
  n_handler :: "json \<Rightarrow> unit outcome"

record server =
  handlers :: "string \<rightharpoonup> request_handler"
  notifications :: "(string \<rightharpoonup> notification_handler) option"

datatype response =
    SuccessResponse "json option" json
  | ErrorResponse "json option" int json "json option"

datatype js_exception = TypeError

definition MethodNotFoundError :: "error_codes \<Rightarrow> json option \<Rightarrow> json option \<Rightarrow> thrown" where
  "MethodNotFoundError codes requestId method_name =
     ThrownJsonRpcError False requestId (METHOD_NOT_FOUND codes)
       (''unable to find method '' @ template method_name) None"

definition InvalidParametersError :: "error_codes \<Rightarrow> (zod_error \<Rightarrow> string) \<Rightarrow> json option \<Rightarrow> zod_error \<Rightarrow> thrown" where
  "InvalidParametersError codes render requestId zodError =
     ThrownJsonRpcError False requestId (INVALID_PARAMETERS codes)
       (''invalid parameters: '' @ render zodError) None"

definition truthy_opt :: "json option \<Rightarrow> bool" where
  "truthy_opt v = (case v of None \<Rightarrow> False | Some x \<Rightarrow> truthy x)"

fun truthy_thrown :: "thrown \<Rightarrow> bool" where
  "truthy_thrown (ThrownJsonRpcError _ _ _ _ _) = True"
| "truthy_thrown (ThrownError _) = True"
| "truthy_thrown (ThrownValue v) = truthy_opt v"

text \<open>\<open>(error as any)?.message ?? 'an unknown error occurred'\<close>.\<close>

fun thrown_message :: "thrown \<Rightarrow> json" where
  "thrown_message (ThrownJsonRpcError _ _ _ m _) = JStr m"
| "thrown_message (ThrownError m) = JStr m"
| "thrown_message (ThrownValue None) = JStr ''an unknown error occurred''"
| "thrown_message (ThrownValue (Some v)) =
     (case field ''message'' v of
        None \<Rightarrow> JStr ''an unknown error occurred''
      | Some JNull \<Rightarrow> JStr ''an unknown error occurred''
      | Some m \<Rightarrow> m)"

definition handleRpcRequest :: "error_codes \<Rightarrow> (zod_error \<Rightarrow> string) \<Rightarrow> server \<Rightarrow> json \<Rightarrow> response outcome" where
  "handleRpcRequest codes render srv request =
     (case handlers srv (template (field ''method'' request)) of
        None \<Rightarrow> Throws (MethodNotFoundError codes (field ''id'' request) (field ''method'' request))
      | Some m \<Rightarrow>
          (case paramsSchema m (field ''params'' request) of
             Inl error \<Rightarrow> Throws (InvalidParametersError codes render (field ''id'' request) error)
           | Inr params \<Rightarrow>
               (case handler m params of
                  Throws e \<Rightarrow> Throws e
                | Returns result \<Rightarrow> Returns (SuccessResponse (field ''id'' request) result))))"

definition handleRpcNotification :: "error_codes \<Rightarrow> (zod_error \<Rightarrow> string) \<Rightarrow> server \<Rightarrow> json \<Rightarrow> unit outcome" where
  "handleRpcNotification codes render srv notification =
     (case (case notifications srv of
              None \<Rightarrow> None
            | Some ns \<Rightarrow> ns (template (field ''method'' notification))) of
        None \<Rightarrow> Throws (MethodNotFoundError codes (Some JNull) (field ''method'' notification))
      | Some m \<Rightarrow>
          (case n_paramsSchema m (field ''params'' notification) of
             Inl error \<Rightarrow> Throws (InvalidParametersError codes render (Some JNull) error)
           | Inr params \<Rightarrow> n_handler m params))"

text \<open>The \<open>catch\<close> clause of \<open>handleMessage\<close>, with \<open>data\<close> an object.\<close>

definition is_string_or_number :: "json option \<Rightarrow> bool" where
  "is_string_or_number v = (case v of Some (JStr _) \<Rightarrow> True | Some (JNum _) \<Rightarrow> True | _ \<Rightarrow> False)"

fun handleMessage_catch :: "error_codes \<Rightarrow> json \<Rightarrow> thrown \<Rightarrow> response option" where
  "handleMessage_catch codes data (ThrownJsonRpcError custom requestId c m d) =
     (if truthy_opt requestId then Some (ErrorResponse requestId c (JStr m) d)
      else if custom \<and> truthy_opt requestId then Some (ErrorResponse requestId c (JStr m) d)
      else if hasOwn data ''id'' \<and> is_string_or_number (field ''id'' data) then
        Some (ErrorResponse (field ''id'' data) (INTERNAL_SERVER_ERROR codes) (JStr m) None)
      else None)"
| "handleMessage_catch codes data error =
     (if truthy_thrown error \<and> hasOwn data ''id'' \<and> is_string_or_number (field ''id'' data) then
        Some (ErrorResponse (field ''id'' data) (INTERNAL_SERVER_ERROR codes)
                (thrown_message error) None)
      else None)"

definition handleMessage :: "error_codes \<Rightarrow> (zod_error \<Rightarrow> string) \<Rightarrow> server \<Rightarrow> json \<Rightarrow> js_exception + response option" where
  "handleMessage codes render srv serverMessage =
     (case js_in ''id'' serverMessage of
        None \<Rightarrow> Inl TypeError
      | Some hasId \<Rightarrow>
          (case (if hasId then safeParse JsonRpcRequestSchema serverMessage
                 else safeParse JsonRpcNotificationSchema serverMessage) of
             Inl error \<Rightarrow>
               Inr (Some (ErrorResponse
                 (if truthy serverMessage \<and> hasId \<and> truthy_opt (field ''id'' serverMessage)
                  then field ''id'' serverMessage else Some JNull)
                 (INVALID_REQUEST codes)
                 (JStr (''invalid JSON RPC request: '' @ render error))
                 None))
           | Inr data \<Rightarrow>
               (case js_in ''id'' data of
                  None \<Rightarrow> Inl TypeError
                | Some True \<Rightarrow>
                    (case handleRpcRequest codes render srv data of
                       Returns r \<Rightarrow> Inr (Some r)
                     | Throws error \<Rightarrow> Inr (handleMessage_catch codes data error))
                | Some False \<Rightarrow>
                    (case handleRpcNotification codes render srv data of
                       Returns _ \<Rightarrow> Inr None
                     | Throws error \<Rightarrow> Inr (handleMessage_catch codes data error)))))"

text \<open>\<open>handleRawMessage\<close> takes what \<open>JSON.parse\<close> makes of the raw string: a decoded
  value, or \<open>None\<close> when \<open>JSON.parse\<close> throws.\<close>

definition handleRawMessage :: "error_codes \<Rightarrow> (zod_error \<Rightarrow> string) \<Rightarrow> server \<Rightarrow> json option \<Rightarrow> js_exception + response option" where
  "handleRawMessage codes render srv decoded =
     (case decoded of
        None \<Rightarrow>
          Inr (Some (ErrorResponse (Some JNull) (PARSE_ERROR codes)
                       (JStr ''invalid JSON payload structure'') None))
      | Some requestObject \<Rightarrow> handleMessage codes render srv requestObject)"


section \<open>Client correlation engine: \<open>JsonRpcClient\<close>\<close>

text \<open>
  The constructor's arguments are the configuration: the method definitions (each
  schema is its \<open>parse\<close> function), the two timeouts, and the id generator, \<open>None\<close> for
  the default \<open>() => this.nextRequestId++\<close>. A caller-supplied generator is a function
  without arguments that may answer differently each time: it is modelled by the
  sequence of its answers, and the state counts its calls.

  A call creates one promise and one timer; both are named by the number of the call
  (\<open>calls\<close> counts them). \<open>resolve\<close> and \<open>reject\<close> of a \<open>PendingRequest\<close> are the two
  functions of that promise. The state keeps the timers that are armed, each with its
  delay and with what its callback closes over (the request id and the promise whose
  \<open>reject\<close> it calls): \<open>clearTimeout\<close> removes a timer, and so does its firing. Every
  call of a \<open>resolve\<close> or \<open>reject\<close> is appended to \<open>settled\<close>, and every message handed
  to the transport to \<open>sent\<close>; \<open>transport.send\<close> is taken to return a promise without
  throwing, as the transports do. The table \<open>pendingRequests\<close> is a \<open>Map\<close>: a list of
  entries with distinct keys, in insertion order.
\<close>

record client_method =
  cm_paramsSchema :: "json option \<Rightarrow> zod_error + json"
  cm_resultSchema :: "json option \<Rightarrow> zod_error + json"

record client_config =
  methods :: "string \<rightharpoonup> client_method"
  defaultRequestTimeout :: int
  shutdownTimeout :: int
  generateRequestId :: "(nat \<Rightarrow> json) option"

record pending_request =
  pr_promise :: nat
  pr_method :: string
  pr_timestamp :: int
  pr_timeout :: "nat option"

record timer =
  tm_delay :: int
  tm_requestId :: json
  tm_promise :: nat

datatype client_error =
    Error string
  | ZodThrown zod_error
  | JsonRpcError "json option" "json option"

datatype settlement = Resolved "json option" | Rejected client_error

record client =
  pendingRequests :: "(json \<times> pending_request) list"
  nextRequestId :: int
  shuttingDown :: bool
  timers :: "(nat \<times> timer) list"
  calls :: nat
  idCalls :: nat
  settled :: "(nat \<times> settlement) list"
  sent :: "json list"

definition client_new :: client where
  "client_new =
     \<lparr> pendingRequests = [], nextRequestId = 1, shuttingDown = False, timers = [],
       calls = 0, idCalls = 0, settled = [], sent = [] \<rparr>"

definition generateId :: "client_config \<Rightarrow> client \<Rightarrow> json \<times> client" where
  "generateId cfg s =
     (case generateRequestId cfg of
        None \<Rightarrow> (JNum (nextRequestId s), s\<lparr>nextRequestId := nextRequestId s + 1\<rparr>)
      | Some g \<Rightarrow> (g (idCalls s), s\<lparr>idCalls := idCalls s + 1\<rparr>))"

text \<open>\<open>call\<close>: \<open>Inl\<close> is the error with which the returned promise rejects before any
  pending request is registered; \<open>options\<close> is \<open>None\<close> when the caller gives none.\<close>

definition call :: "client_config \<Rightarrow> string \<Rightarrow> json option \<Rightarrow> int option \<Rightarrow> int \<Rightarrow> client \<Rightarrow> client_error + client" where
  "call cfg method_name params options now s =
     (if shuttingDown s then Inl (Error ''Client is shutting down'')
      else case methods cfg method_name of
        None \<Rightarrow> Inl (Error (''Method '' @ method_name @ '' not found''))
      | Some methodDef \<Rightarrow>
          (case cm_paramsSchema methodDef params of
             Inl zodError \<Rightarrow> Inl (ZodThrown zodError)
           | Inr validatedParams \<Rightarrow>
               (case generateId cfg s of
                  (requestId, s1) \<Rightarrow>
                    (let request = JObj [(''jsonrpc'', JStr ''2.0''), (''method'', JStr method_name),
                                         (''params'', validatedParams), (''id'', requestId)];
                         p = calls s1;
                         tm = \<lparr> tm_delay = (case options of None \<Rightarrow> defaultRequestTimeout cfg
                                                           | Some t \<Rightarrow> t),
                                tm_requestId = requestId, tm_promise = p \<rparr>;
                         s2 = s1\<lparr>calls := Suc p, timers := timers s1 @ [(p, tm)]\<rparr>;
                         s3 = s2\<lparr>pendingRequests := AList.update requestId
                                  \<lparr> pr_promise = p, pr_method = method_name, pr_timestamp = now,
                                    pr_timeout = Some p \<rparr> (pendingRequests s2)\<rparr>
                     in Inr (s3\<lparr>sent := sent s3 @ [request]\<rparr>)))))"

text \<open>The callback of the timer \<open>t\<close>, run when the timer fires (an armed timer only).\<close>

definition timerFires :: "client_config \<Rightarrow> nat \<Rightarrow> client \<Rightarrow> client" where
  "timerFires cfg t s =
     (case map_of (timers s) t of
        None \<Rightarrow> s
      | Some tm \<Rightarrow>
          (let s1 = s\<lparr>timers := AList.delete t (timers s)\<rparr>;
               requestId = tm_requestId tm
           in case map_of (pendingRequests s1) requestId of
                None \<Rightarrow> s1
              | Some pendingRequest \<Rightarrow>
                  s1\<lparr>pendingRequests := AList.delete requestId (pendingRequests s1),
                     settled := settled s1 @
                       [(tm_promise tm,
                         Rejected (Error (''Request '' @ js_string requestId @ '' timed out after ''
                                          @ show_int (defaultRequestTimeout cfg) @ ''ms'')))]\<rparr>))"

definition clearTimeout :: "nat option \<Rightarrow> (nat \<times> timer) list \<Rightarrow> (nat \<times> timer) list" where
  "clearTimeout t ts = (case t of None \<Rightarrow> ts | Some h \<Rightarrow> AList.delete h ts)"

text \<open>\<open>handleResponse\<close> takes what \<open>JSON.parse\<close> makes of the response string: a decoded
  value, or \<open>None\<close> when \<open>JSON.parse\<close> throws (the \<open>catch\<close> only logs).\<close>

definition handleResponse :: "client_config \<Rightarrow> (zod_error \<Rightarrow> string) \<Rightarrow> json option \<Rightarrow> client \<Rightarrow> client" where
  "handleResponse cfg render decoded s =
     (case decoded of
        None \<Rightarrow> s
      | Some responseObject \<Rightarrow>
     (case safeParse JsonRpcResponseSchema responseObject of
        Inl parseError \<Rightarrow> s
      | Inr response \<Rightarrow>
     (case field ''id'' response of
        None \<Rightarrow> s
      | Some requestId \<Rightarrow>
     (if requestId = JNull then s
      else case map_of (pendingRequests s) requestId of
        None \<Rightarrow> s
      | Some pendingRequest \<Rightarrow>
          (let s1 = s\<lparr>pendingRequests := AList.delete requestId (pendingRequests s)\<rparr>;
               s2 = s1\<lparr>timers := clearTimeout (pr_timeout pendingRequest) (timers s1)\<rparr>;
               p = pr_promise pendingRequest
           in if isJsonRpcSuccessResponse response then
                (case methods cfg (pr_method pendingRequest) of
                   Some methodDef \<Rightarrow>
                     (case cm_resultSchema methodDef (field ''result'' response) of
                        Inr validatedResult \<Rightarrow>
                          s2\<lparr>settled := settled s2 @ [(p, Resolved (Some validatedResult))]\<rparr>
                      | Inl validationError \<Rightarrow>
                          s2\<lparr>settled := settled s2 @
                            [(p, Rejected (Error (''Invalid result format: '' @ render validationError)))]\<rparr>)
                 | None \<Rightarrow> s2\<lparr>settled := settled s2 @ [(p, Resolved (field ''result'' response))]\<rparr>)
              else if isJsonRpcErrorResponse response then
                s2\<lparr>settled := settled s2 @
                  [(p, Rejected (JsonRpcError (field ''id'' response) (field ''error'' response)))]\<rparr>
              else s2)))))"

definition cancelPendingRequests :: "client \<Rightarrow> client" where
  "cancelPendingRequests s =
     s\<lparr>timers := fold (\<lambda>(requestId, pendingRequest). clearTimeout (pr_timeout pendingRequest))
                    (pendingRequests s) (timers s),
       settled := settled s @
         map (\<lambda>(requestId, pendingRequest).
                (pr_promise pendingRequest, Rejected (Error ''Client is shutting down'')))
             (pendingRequests s),
       pendingRequests := []\<rparr>"

text \<open>
  \<open>gracefulShutdown\<close> sets the flag, waits until the table is empty or the shutdown
  timeout has passed, and then calls \<open>cancelPendingRequests\<close>. In the model these are
  two events, with any other events between them. A run of the client is a list of
  events: calls, responses delivered by the transport, timers that fire, and the two
  steps of the shutdown.
\<close>

datatype client_event =
    Call string "json option" "int option" int
  | Response "json option"
  | TimerFires nat
  | ShutdownBegins
  | ShutdownDrains

fun step :: "client_config \<Rightarrow> (zod_error \<Rightarrow> string) \<Rightarrow> client \<Rightarrow> client_event \<Rightarrow> client" where
  "step cfg render s (Call method_name params options now) =
     (case call cfg method_name params options now s of Inl _ \<Rightarrow> s | Inr s1 \<Rightarrow> s1)"
| "step cfg render s (Response decoded) = handleResponse cfg render decoded s"
| "step cfg render s (TimerFires t) = timerFires cfg t s"
| "step cfg render s ShutdownBegins = s\<lparr>shuttingDown := True\<rparr>"
| "step cfg render s ShutdownDrains = cancelPendingRequests s"

definition run :: "client_config \<Rightarrow> (zod_error \<Rightarrow> string) \<Rightarrow> client_event list \<Rightarrow> client \<Rightarrow> client" where
  "run cfg render evs s = foldl (step cfg render) s evs"

text \<open>How often a \<open>resolve\<close> or \<open>reject\<close> of the promise \<open>p\<close> has been called.\<close>

definition completions :: "nat \<Rightarrow> client \<Rightarrow> nat" where
  "completions p s = length (filter (\<lambda>(q, outcome). q = p) (settled s))"

text \<open>The generator never repeats an id: the default one counts up, a supplied one
  must answer differently each time.\<close>

definition fresh_ids :: "client_config \<Rightarrow> bool" where
  "fresh_ids cfg = (case generateRequestId cfg of None \<Rightarrow> True | Some g \<Rightarrow> inj g)"


text \<open>
  The invariant of the table of pending requests, for a generator that never repeats
  an id: the keys of the table and the promises of its entries are distinct; the timer
  of every entry is armed and its callback closes over the entry's key and promise;
  every armed timer belongs to an entry of the table; a promise has been settled once
  when its call has been made and its timer is no longer armed, and not at all
  otherwise; and every key of the table was produced by the generator.
\<close>

definition issued :: "client_config \<Rightarrow> client \<Rightarrow> json \<Rightarrow> bool" where
  "issued cfg s requestId =
     (case generateRequestId cfg of
        None \<Rightarrow> (\<exists>k. requestId = JNum k \<and> k < nextRequestId s)
      | Some g \<Rightarrow> (\<exists>i. requestId = g i \<and> i < idCalls s))"

definition client_inv :: "client_config \<Rightarrow> client \<Rightarrow> bool" where
  "client_inv cfg s \<longleftrightarrow>
     distinct (map fst (pendingRequests s))
     \<and> distinct (map (\<lambda>e. pr_promise (snd e)) (pendingRequests s))
     \<and> (\<forall>requestId pr. map_of (pendingRequests s) requestId = Some pr \<longrightarrow>
           pr_timeout pr = Some (pr_promise pr)
           \<and> (\<exists>tm. map_of (timers s) (pr_promise pr) = Some tm
                  \<and> tm_requestId tm = requestId \<and> tm_promise tm = pr_promise pr))
     \<and> (\<forall>t tm. map_of (timers s) t = Some tm \<longrightarrow>
           tm_promise tm = t \<and> t < calls s
           \<and> (\<exists>pr. map_of (pendingRequests s) (tm_requestId tm) = Some pr \<and> pr_promise pr = t))
     \<and> (\<forall>p. completions p s = (if p < calls s \<and> map_of (timers s) p = None then 1 else 0))
     \<and> (\<forall>requestId pr. map_of (pendingRequests s) requestId = Some pr \<longrightarrow> issued cfg s requestId)"


subsection \<open>Scenarios\<close>

text \<open>A client for the examples below: one method \<open>echo\<close> whose schemas accept every
  defined value, the default timeouts of the constructor (30000 and 5000), and the id
  generator given.\<close>

definition acceptAll :: "json option \<Rightarrow> zod_error + json" where
  "acceptAll v =
     (case v of None \<Rightarrow> Inl (ZodError [Issue [] ''invalid_type'']) | Some x \<Rightarrow> Inr x)"

definition test_config :: "(nat \<Rightarrow> json) option \<Rightarrow> client_config" where
  "test_config generator =
     \<lparr> methods = [''echo'' \<mapsto> \<lparr>cm_paramsSchema = acceptAll, cm_resultSchema = acceptAll\<rparr>],
       defaultRequestTimeout = 30000, shutdownTimeout = 5000,
       generateRequestId = generator \<rparr>"

text \<open>Two calls that get the same id \<open>"x"\<close> from the generator; a response for \<open>"x"\<close>;
  both timers fire; the client shuts down and drains.\<close>

definition dup_events :: "client_event list" where
  "dup_events =
     [Call ''echo'' (Some (JObj [])) None 0,
      Call ''echo'' (Some (JObj [])) None 0,
      Response (Some (JObj [(''jsonrpc'', JStr ''2.0''), (''result'', JNum 1), (''id'', JStr ''x'')])),
      TimerFires 0, TimerFires 1, ShutdownBegins, ShutdownDrains]"

text \<open>Three calls with the default generator (ids 1, 2, 3); a response for id 2; the
  timer of the first call fires; the client shuts down and drains.\<close>

definition three_events :: "client_event list" where
  "three_events =
     [Call ''echo'' (Some (JObj [])) None 0,
      Call ''echo'' (Some (JObj [])) None 0,
      Call ''echo'' (Some (JObj [])) None 0,
      Response (Some (JObj [(''jsonrpc'', JStr ''2.0''), (''result'', JNum 7), (''id'', JNum 2)])),
      TimerFires 0, ShutdownBegins, ShutdownDrains]"


section \<open>Properties of the event channel\<close>

lemma listenerCount_unsubscribeAll:
  "listenerCount event (fst (unsubscribeAll event cbs)) = 0"
  by (simp add: listenerCount_def unsubscribeAll_def split: option.split)

lemma unsubscribeAll_other:
  "e \<noteq> event \<Longrightarrow> fst (unsubscribeAll event cbs) e = cbs e"
  by (simp add: unsubscribeAll_def split: option.split)

text \<open>
  Claim C9. For every event name and every state of the emitter, a second
  \<open>unsubscribeAll\<close> right after a first one returns 0, and after one \<open>unsubscribeAll\<close>
  the listener count of the event is 0. The model of \<open>unsubscribeAll\<close> is a total function
  with no error result: the source has no statement that throws on this path.
\<close>

theorem unsubscribeAll_idempotent:
  "snd (unsubscribeAll event (fst (unsubscribeAll event cbs))) = 0
   \<and> listenerCount event (fst (unsubscribeAll event cbs)) = 0
   \<and> fst (unsubscribeAll event (fst (unsubscribeAll event cbs))) = fst (unsubscribeAll event cbs)"
  by (simp add: listenerCount_def unsubscribeAll_def split: option.split)


section \<open>Properties of the error codes\<close>

text \<open>
  Claim C4. The standard error codes are ParseError = -32700, InvalidRequest = -32600,
  MethodNotFound = -32601, InvalidParameters = -32606, InternalServerError = -32603 and
  ResourceNotFound = -32004.
\<close>

theorem JsonRpcErrorCodes_values:
  "PARSE_ERROR JsonRpcErrorCodes = - 32700
   \<and> INVALID_REQUEST JsonRpcErrorCodes = - 32600
   \<and> METHOD_NOT_FOUND JsonRpcErrorCodes = - 32601
   \<and> INVALID_PARAMETERS JsonRpcErrorCodes = - 32606
   \<and> INTERNAL_SERVER_ERROR JsonRpcErrorCodes = - 32603
   \<and> RESOURCE_NOT_FOUND JsonRpcErrorCodes = - 32004
   \<and> standardErrorCodes = [- 32700, - 32600, - 32601, - 32606, - 32603, - 32004]"
  by (simp add: JsonRpcErrorCodes_def standardErrorCodes_def)

section \<open>Properties of the stream transport's framing\<close>

lemma frames_append: "frames (es @ fs) = frames es @ frames fs"
  by (induction es rule: frames.induct) auto

lemma processMessages_frames:
  "frames (fst (processMessages ms s)) = map trim (filter (\<lambda>m. trim m \<noteq> []) ms)"
proof (induction ms arbitrary: s)
  case Nil
  then show ?case by simp
next
  case (Cons m ms)
  show ?case
  proof (cases "trim m = []")
    case True
    then show ?thesis using Cons by simp
  next
    case False
    then show ?thesis using Cons[of "snd (processResponse (trim m) s)"]
      by (auto simp: processResponse_def frames_append split: prod.splits list.splits)
  qed
qed

lemma processMessages_queue:
  "messageQueue (snd (processMessages ms s)) =
     drop (length (filter (\<lambda>m. trim m \<noteq> []) ms)) (messageQueue s)"
proof (induction ms arbitrary: s)
  case Nil
  then show ?case by simp
next
  case (Cons m ms)
  show ?case
  proof (cases "trim m = []")
    case True
    then show ?thesis using Cons by simp
  next
    case False
    then show ?thesis using Cons[of "snd (processResponse (trim m) s)"]
      by (auto simp: processResponse_def split: prod.splits list.splits)
  qed
qed

lemma split_on_nonempty: "split_on d xs \<noteq> []"
  by (induction xs) (auto split: list.splits)

lemma hd_dropWhile_not: "dropWhile P xs \<noteq> [] \<Longrightarrow> \<not> P (hd (dropWhile P xs))"
  by (induction xs) auto

lemma last_dropWhile: "dropWhile P xs \<noteq> [] \<Longrightarrow> last (dropWhile P xs) = last xs"
  by (induction xs) auto

lemma trim_ends:
  assumes "trim m \<noteq> []"
  shows "\<not> is_ws (hd (trim m))" and "\<not> is_ws (last (trim m))"
proof -
  let ?ys = "dropWhile is_ws m"
  let ?zs = "dropWhile is_ws (rev ?ys)"
  from assms have zs: "?zs \<noteq> []" unfolding trim_def rev_is_Nil_conv .
  have ys: "?ys \<noteq> []"
    using zs by (metis dropWhile.simps(1) rev.simps(1))
  have "last (trim m) = hd ?zs" using zs by (simp add: trim_def last_rev)
  then show "\<not> is_ws (last (trim m))" using hd_dropWhile_not[OF zs] by simp
  have "hd (trim m) = last ?zs" using zs by (simp add: trim_def hd_rev)
  also have "\<dots> = last (rev ?ys)" using zs by (rule last_dropWhile)
  also have "\<dots> = hd ?ys" using ys by (simp add: last_rev)
  finally show "\<not> is_ws (hd (trim m))" using hd_dropWhile_not[OF ys] by simp
qed

lemma trim_idem: "trim (trim m) = trim m"
proof (cases "trim m = []")
  case True
  have "trim [] = []" by (simp add: trim_def)
  then show ?thesis by (simp only: True)
next
  case False
  from trim_ends[OF False] have h: "\<not> is_ws (hd (trim m))" and l: "\<not> is_ws (last (trim m))" by auto
  have 1: "dropWhile is_ws (trim m) = trim m" using False h by (cases "trim m") auto
  have 2: "dropWhile is_ws (rev (trim m)) = rev (trim m)"
    using False l by (cases "rev (trim m)") (auto simp: last_rev hd_rev)
  show ?thesis unfolding trim_def[of "trim m"] 1 2 by simp
qed

lemma handleData_frames:
  "frames (fst (handleData data s)) =
     map trim (filter (\<lambda>m. trim m \<noteq> []) (butlast (split_on newline (buffer s @ data))))"
  by (simp add: handleData_def pop_def split_on_nonempty processMessages_frames Let_def)

lemma handleData_queue:
  "messageQueue (snd (handleData data s)) =
     drop (length (frames (fst (handleData data s)))) (messageQueue s)"
  by (simp add: handleData_def pop_def split_on_nonempty processMessages_frames processMessages_queue Let_def)

lemma processMessages_buffer: "buffer (snd (processMessages ms s)) = buffer s"
proof (induction ms arbitrary: s)
  case Nil
  then show ?case by simp
next
  case (Cons m ms)
  show ?case
  proof (cases "trim m = []")
    case True
    then show ?thesis using Cons by simp
  next
    case False
    then show ?thesis using Cons[of "snd (processResponse (trim m) s)"]
      by (auto simp: processResponse_def split: prod.splits list.splits)
  qed
qed

lemma handleData_buffer:
  "buffer (snd (handleData data s)) = last (split_on newline (buffer s @ data))"
  by (simp add: handleData_def pop_def split_on_nonempty processMessages_buffer Let_def)


text \<open>
  Claim C3 as stated fails: the chunks \<open>"A\nB\nC"\<close>, \<open>"D"\<close>, \<open>"\n"\<close> (the code units
  \<open>0x41 0x0A 0x42 0x0A 0x43\<close>, then \<open>0x44\<close>, then \<open>0x0A\<close>) received by a new client do
  not give the four framed messages A, B, C, D.
\<close>

theorem framing_scenario_counterexample:
  "frames (fst (handleChunks [[0x41, 0x0A, 0x42, 0x0A, 0x43], [0x44], [0x0A]] target_client_new))
     \<noteq> [[0x41], [0x42], [0x43], [0x44]]"
  by (simp add: split_beta frames_append handleData_frames handleData_buffer newline_def
        target_client_new_def trim_def is_ws_def)

text \<open>
  Claim C3, amended. On a connection whose read buffer is empty, the chunks \<open>"A\nB\nC"\<close>,
  \<open>"D"\<close>, \<open>"\n"\<close> give exactly three framed messages, in this order: A, B and CD. The
  unterminated \<open>C\<close> stays in the buffer and the next chunk continues it.
\<close>

theorem framing_scenario:
  "buffer s = [] \<Longrightarrow>
   frames (fst (handleChunks [[0x41, 0x0A, 0x42, 0x0A, 0x43], [0x44], [0x0A]] s))
     = [[0x41], [0x42], [0x43, 0x44]]"
  by (simp add: split_beta frames_append handleData_frames handleData_buffer newline_def
        trim_def is_ws_def)

theorem framing_scenario_witness:
  "buffer target_client_new = []
   \<and> frames (fst (handleChunks [[0x41, 0x0A, 0x42, 0x0A, 0x43], [0x44], [0x0A]] target_client_new))
     = [[0x41], [0x42], [0x43, 0x44]]"
proof -
  have b: "buffer target_client_new = []" by (simp add: target_client_new_def)
  from b framing_scenario[OF b] show ?thesis by simp
qed

text \<open>
  Claim C10. Every message that \<open>handleData\<close> hands to the response matcher is non-empty
  and trimmed (it is its own \<open>trim\<close>, and neither its first nor its last code unit is
  white space). The messages are the trimmed complete lines of buffer and chunk that are
  not blank: a line of white space only, or an empty line between two delimiters, gives
  no message. The queue of pending messages loses one entry (from its front) for each
  message delivered and none for a blank line.
\<close>

theorem handleData_trimmed_nonempty:
  "(\<forall>m \<in> set (frames (fst (handleData data s))).
       m \<noteq> [] \<and> trim m = m \<and> \<not> is_ws (hd m) \<and> \<not> is_ws (last m))
   \<and> frames (fst (handleData data s)) =
       map trim (filter (\<lambda>line. trim line \<noteq> []) (butlast (split_on newline (buffer s @ data))))
   \<and> messageQueue (snd (handleData data s)) =
       drop (length (frames (fst (handleData data s)))) (messageQueue s)"
proof (intro conjI ballI)
  fix m assume "m \<in> set (frames (fst (handleData data s)))"
  then obtain line where m: "m = trim line" and ne: "trim line \<noteq> []"
    by (auto simp: handleData_frames)
  show "m \<noteq> []" using m ne by simp
  show "trim m = m" using m by (simp add: trim_idem)
  show "\<not> is_ws (hd m)" using m trim_ends(1)[OF ne] by simp
  show "\<not> is_ws (last m)" using m trim_ends(2)[OF ne] by simp
next
  show "frames (fst (handleData data s)) =
       map trim (filter (\<lambda>line. trim line \<noteq> []) (butlast (split_on newline (buffer s @ data))))"
    by (rule handleData_frames)
next
  show "messageQueue (snd (handleData data s)) =
       drop (length (frames (fst (handleData data s)))) (messageQueue s)"
    by (rule handleData_queue)
qed

text \<open>The witness: the chunk \<open>" \n\n A \n"\<close> with two messages pending. The two blank
  lines give nothing, the third line gives \<open>A\<close>, and one pending message is consumed.\<close>

theorem handleData_trimmed_nonempty_witness:
  "frames (fst (handleData [0x20, 0x0A, 0x0A, 0x20, 0x41, 0x20, 0x0A]
      (target_client_new\<lparr>messageQueue :=
         [\<lparr>pm_message = [0x31], pm_promise = 0, pm_timeoutId = 0\<rparr>,
          \<lparr>pm_message = [0x32], pm_promise = 1, pm_timeoutId = 1\<rparr>]\<rparr>))) = [[0x41]]
   \<and> messageQueue (snd (handleData [0x20, 0x0A, 0x0A, 0x20, 0x41, 0x20, 0x0A]
      (target_client_new\<lparr>messageQueue :=
         [\<lparr>pm_message = [0x31], pm_promise = 0, pm_timeoutId = 0\<rparr>,
          \<lparr>pm_message = [0x32], pm_promise = 1, pm_timeoutId = 1\<rparr>]\<rparr>)))
       = [\<lparr>pm_message = [0x32], pm_promise = 1, pm_timeoutId = 1\<rparr>]"
  using handleData_trimmed_nonempty[of "[0x20, 0x0A, 0x0A, 0x20, 0x41, 0x20, 0x0A]"
      "target_client_new\<lparr>messageQueue :=
         [\<lparr>pm_message = [0x31], pm_promise = 0, pm_timeoutId = 0\<rparr>,
          \<lparr>pm_message = [0x32], pm_promise = 1, pm_timeoutId = 1\<rparr>]\<rparr>"]
  by (simp add: target_client_new_def newline_def trim_def is_ws_def)


section \<open>Properties of the stream transport's reconnection\<close>

lemma reconnect_effects_rejectAll: "reconnect_effects (rejectAll reason queue) = []"
  by (induction queue) (simp_all add: reconnect_effects_def rejectAll_def is_reconnect_effect_def)

lemma reconnect_effects_append:
  "reconnect_effects (es @ fs) = reconnect_effects es @ reconnect_effects fs"
  by (simp add: reconnect_effects_def)

text \<open>One call of \<open>scheduleReconnect\<close> below the cap raises the counter to \<open>n\<close> and
  sets one timer with delay \<open>reconnectDelay * n\<close>; at the cap it emits the terminal
  signal, sets no timer and leaves the counter. A successful connect sets the counter
  to zero.\<close>

lemma scheduleReconnect_below:
  "reconnectAttempts s < maxReconnectAttempts opts \<Longrightarrow>
   scheduleReconnect opts s =
     ([SetTimeout (reconnectDelay opts * Suc (reconnectAttempts s))],
      s\<lparr>reconnectAttempts := Suc (reconnectAttempts s)\<rparr>)"
  by (simp add: scheduleReconnect_def Let_def)

lemma scheduleReconnect_capped:
  "maxReconnectAttempts opts \<le> reconnectAttempts s \<Longrightarrow>
   scheduleReconnect opts s = ([Emit ''maxReconnectAttemptsReached''], s)"
  by (simp add: scheduleReconnect_def)

lemma handleConnection_resets: "reconnectAttempts (snd (handleConnection s)) = 0"
  by (simp add: handleConnection_def)

text \<open>On a client with an \<open>error\<close> listener that is not shutting down, each of the two
  handlers schedules as \<open>scheduleReconnect\<close> does.\<close>

lemma handleFailure_listener:
  assumes "\<not> isShuttingDown s" and "0 < errorListeners s"
  shows "reconnect_effects (fst (handleFailure opts f s)) =
           reconnect_effects (fst (scheduleReconnect opts s))"
    and "reconnectAttempts (snd (handleFailure opts f s)) =
           reconnectAttempts (snd (scheduleReconnect opts s))"
    and "isShuttingDown (snd (handleFailure opts f s)) = isShuttingDown s"
    and "errorListeners (snd (handleFailure opts f s)) = errorListeners s"
proof -
  let ?c = "s\<lparr>isConnecting := False\<rparr>"
  let ?d = "s\<lparr>isConnected := False, socket := False, buffer := [], messageQueue := []\<rparr>"
  have c: "scheduleReconnect opts ?c =
             (fst (scheduleReconnect opts s), (snd (scheduleReconnect opts s))\<lparr>isConnecting := False\<rparr>)"
    by (simp add: scheduleReconnect_def Let_def)
  have d: "scheduleReconnect opts ?d =
             (fst (scheduleReconnect opts s),
              (snd (scheduleReconnect opts s))\<lparr>isConnected := False, socket := False, buffer := [], messageQueue := []\<rparr>)"
    by (simp add: scheduleReconnect_def Let_def)
  have sd: "isShuttingDown (snd (scheduleReconnect opts s)) = isShuttingDown s"
    and el: "errorListeners (snd (scheduleReconnect opts s)) = errorListeners s"
    by (simp_all add: scheduleReconnect_def Let_def)
  have e: "handleConnectionError opts s =
             Inr (Emit ''error'' # fst (scheduleReconnect opts s),
                  (snd (scheduleReconnect opts s))\<lparr>isConnecting := False\<rparr>)"
    using assms by (simp add: handleConnectionError_def emits_error_def Let_def c)
  have h: "handleDisconnection opts s =
             (rejectAll ''Connection lost'' (messageQueue s) @ [Emit ''disconnected'']
                @ fst (scheduleReconnect opts s),
              (snd (scheduleReconnect opts s))\<lparr>isConnected := False, socket := False, buffer := [], messageQueue := []\<rparr>)"
    using assms by (simp add: handleDisconnection_def Let_def d)
  have r1: "reconnect_effects (Emit ''error'' # es) = reconnect_effects es"
    and r2: "reconnect_effects (Emit ''disconnected'' # es) = reconnect_effects es" for es
    by (simp_all add: reconnect_effects_def is_reconnect_effect_def)
  show "reconnect_effects (fst (handleFailure opts f s)) =
           reconnect_effects (fst (scheduleReconnect opts s))"
    by (cases f) (simp_all add: handleFailure_def e h r1 r2 reconnect_effects_append
         reconnect_effects_rejectAll)
  show "reconnectAttempts (snd (handleFailure opts f s)) =
           reconnectAttempts (snd (scheduleReconnect opts s))"
    by (cases f) (simp_all add: handleFailure_def e h)
  show "isShuttingDown (snd (handleFailure opts f s)) = isShuttingDown s"
    by (cases f) (simp_all add: handleFailure_def e h sd)
  show "errorListeners (snd (handleFailure opts f s)) = errorListeners s"
    by (cases f) (simp_all add: handleFailure_def e h el)
qed

lemma reconnect_effects_single:
  "reconnect_effects [SetTimeout d] = [SetTimeout d]"
  "reconnect_effects [Emit ''maxReconnectAttemptsReached''] = [Emit ''maxReconnectAttemptsReached'']"
  by (simp_all add: reconnect_effects_def is_reconnect_effect_def)

lemma handleFailure_below:
  assumes "\<not> isShuttingDown s" and "0 < errorListeners s"
    and "reconnectAttempts s < maxReconnectAttempts opts"
  shows "reconnect_effects (fst (handleFailure opts f s)) =
           [SetTimeout (reconnectDelay opts * Suc (reconnectAttempts s))]"
    and "reconnectAttempts (snd (handleFailure opts f s)) = Suc (reconnectAttempts s)"
    and "\<not> isShuttingDown (snd (handleFailure opts f s))"
    and "0 < errorListeners (snd (handleFailure opts f s))"
  using assms
  by (simp_all add: handleFailure_listener scheduleReconnect_below reconnect_effects_single)

lemma handleFailure_capped:
  assumes "\<not> isShuttingDown s" and "0 < errorListeners s"
    and "reconnectAttempts s \<ge> maxReconnectAttempts opts"
  shows "reconnect_effects (fst (handleFailure opts f s)) = [Emit ''maxReconnectAttemptsReached'']"
    and "reconnectAttempts (snd (handleFailure opts f s)) = reconnectAttempts s"
    and "\<not> isShuttingDown (snd (handleFailure opts f s))"
    and "0 < errorListeners (snd (handleFailure opts f s))"
  using assms
  by (simp_all add: handleFailure_listener scheduleReconnect_capped reconnect_effects_single)

text \<open>On a client with an \<open>error\<close> listener that is not shutting down, a run of handler
  calls (\<open>handleDisconnection\<close> or \<open>handleConnectionError\<close>, with no connect between
  them) sets timers with the delays \<open>reconnectDelay * n\<close> for the calls \<open>n\<close> up to the
  cap and emits the terminal signal for each call after that. The number \<open>n\<close> counts
  the calls of the handlers: one failed connect of the socket raises its \<open>error\<close> event
  and then its \<open>close\<close> event, so it runs both handlers and counts twice.\<close>

lemma failures_general:
  assumes "\<not> isShuttingDown s" and "0 < errorListeners s"
    and "reconnectAttempts s \<le> maxReconnectAttempts opts"
  shows "reconnect_effects (fst (failures opts fs s)) =
           map (\<lambda>n. SetTimeout (reconnectDelay opts * Suc n))
             [reconnectAttempts s ..< min (reconnectAttempts s + length fs) (maxReconnectAttempts opts)]
           @ replicate (reconnectAttempts s + length fs - maxReconnectAttempts opts)
               (Emit ''maxReconnectAttemptsReached'')
         \<and> reconnectAttempts (snd (failures opts fs s)) =
             min (reconnectAttempts s + length fs) (maxReconnectAttempts opts)"
  using assms
proof (induction fs arbitrary: s)
  case Nil
  then show ?case by (simp add: reconnect_effects_def)
next
  case (Cons f fs)
  let ?s1 = "snd (handleFailure opts f s)"
  show ?case
  proof (cases "reconnectAttempts s < maxReconnectAttempts opts")
    case True
    note st = handleFailure_below[OF Cons.prems(1,2) True, of f]
    have le: "reconnectAttempts ?s1 \<le> maxReconnectAttempts opts" using st(2) True by simp
    have lt: "reconnectAttempts s < min (Suc (reconnectAttempts s + length fs)) (maxReconnectAttempts opts)"
      using True by simp
    from Cons.IH[OF st(3,4) le] st(1,2) show ?thesis
      by (simp add: split_beta reconnect_effects_append upt_conv_Cons[OF lt])
  next
    case False
    with Cons.prems have eq: "reconnectAttempts s = maxReconnectAttempts opts" by simp
    then have ge: "reconnectAttempts s \<ge> maxReconnectAttempts opts" by simp
    note st = handleFailure_capped[OF Cons.prems(1,2) ge, of f]
    have le: "reconnectAttempts ?s1 \<le> maxReconnectAttempts opts" using st(2) eq by simp
    from Cons.IH[OF st(3,4) le] st(1,2) eq show ?thesis
      by (simp add: split_beta reconnect_effects_append replicate_append_same Suc_diff_le)
  qed
qed

lemma failed_connect_with_listener:
  "reconnect_effects (fst (failures default_target_options [ConnectionError, Disconnection]
      (target_client_new\<lparr>errorListeners := 1, isConnecting := True\<rparr>)))
     = [SetTimeout 1000, SetTimeout 2000]"
  by (simp add: handleFailure_def handleDisconnection_def handleConnectionError_def
        emits_error_def scheduleReconnect_def Let_def reconnect_effects_def
        is_reconnect_effect_def rejectAll_def target_client_new_def
        default_target_options_def)

text \<open>
  Claim C7 (after every unexpected disconnect or connect failure the \<open>n\<close>-th consecutive
  reconnect attempt is scheduled after \<open>reconnectDelay * n\<close>) does not hold of the
  handler of a connect failure. \<open>handleConnectionError\<close> emits \<open>error\<close> before it calls
  \<open>scheduleReconnect\<close>; on a client without a listener for \<open>error\<close>, which is how each
  caller in the repository builds it, the emitter throws there: the handler ends with
  the exception, \<open>isConnecting\<close> is false, no reconnect timer is set and the attempt
  counter is what it was.
\<close>

theorem connection_error_without_listener:
  assumes "errorListeners s = 0"
  shows "handleConnectionError opts s = Inl (UnhandledError, s\<lparr>isConnecting := False\<rparr>)"
  using assms by (simp add: handleConnectionError_def Let_def emits_error_def)

text \<open>The witness: a new client during its first \<open>connect\<close>, with the default
  options.\<close>

theorem connection_error_without_listener_witness:
  "errorListeners (target_client_new\<lparr>isConnecting := True\<rparr>) = 0
   \<and> handleConnectionError default_target_options (target_client_new\<lparr>isConnecting := True\<rparr>)
       = Inl (UnhandledError, target_client_new)"
proof -
  have h: "errorListeners (target_client_new\<lparr>isConnecting := True\<rparr>) = 0"
    by (simp add: target_client_new_def)
  from h connection_error_without_listener[OF h, of default_target_options]
  show ?thesis by (simp add: target_client_new_def)
qed


section \<open>Properties of the message schemas and the dispatcher\<close>

lemmas schema_defs = JsonRpcRequestSchema_def JsonRpcNotificationSchema_def
  JsonRpcSuccessResponseSchema_def JsonRpcErrorResponseSchema_def JsonRpcResponseSchema_def
  z_refine_def z_object_def z_literal_def z_string_def z_number_def z_null_def z_any_def
  z_optional_def z_union_def safeParse_def success_def field_def List.map_filter_def

subsection \<open>What the schemas accept\<close>

lemma check_literal: "z_check (z_literal s) v = [] \<longleftrightarrow> v = Some (JStr s)"
  by (simp add: z_literal_def)

lemma check_string: "z_check z_string v = [] \<longleftrightarrow> (\<exists>s. v = Some (JStr s))"
  by (auto simp: z_string_def split: option.splits json.splits)

lemma check_number: "z_check z_number v = [] \<longleftrightarrow> (\<exists>n. v = Some (JNum n))"
  by (auto simp: z_number_def split: option.splits json.splits)

lemma check_null: "z_check z_null v = [] \<longleftrightarrow> v = Some JNull"
  by (auto simp: z_null_def split: option.splits json.splits)

lemma check_any: "z_check z_any v = []"
  by (simp add: z_any_def)

lemma check_optional: "z_check (z_optional s) v = [] \<longleftrightarrow> v = None \<or> z_check s v = []"
  by (auto simp: z_optional_def split: option.splits)

lemma check_union: "z_check (z_union ss) v = [] \<longleftrightarrow> list_ex (\<lambda>s. z_check s v = []) ss"
  by (simp add: z_union_def)

lemma check_refine:
  "z_check (z_refine p s) (Some x) = [] \<longleftrightarrow> z_check s (Some x) = [] \<and> p x"
  by (simp add: z_refine_def)

lemma check_object:
  "z_check (z_object strict shape) (Some v) = [] \<longleftrightarrow>
     (\<exists>kvs. v = JObj kvs
        \<and> list_all (\<lambda>(k, s). z_check s (map_of kvs k) = []) shape
        \<and> (strict \<longrightarrow> list_all (\<lambda>k. k \<in> set (map fst shape)) (map fst kvs)))"
  by (cases v)
     (auto simp: z_object_def list_all_iff filter_empty_conv split: prod.splits)

lemmas check_simps = check_literal check_string check_number check_null check_any
  check_optional check_union check_refine check_object

lemma safeParse_Inr: "safeParse s v = Inr r \<longleftrightarrow> z_check s (Some v) = [] \<and> r = z_out s v"
  by (auto simp: safeParse_def split: list.splits)

lemma success_safeParse: "success (safeParse s v) \<longleftrightarrow> z_check s (Some v) = []"
  by (auto simp: safeParse_def success_def split: list.splits)

lemma map_filter_concat:
  "List.map_filter f xs = concat (map (\<lambda>x. case f x of None \<Rightarrow> [] | Some y \<Rightarrow> [y]) xs)"
  by (induction xs) (auto simp: List.map_filter_simps split: option.splits)

lemma object_out:
  "z_out (z_object strict shape) (JObj kvs) =
     JObj (concat (map (\<lambda>(k, s). case map_of kvs k of None \<Rightarrow> [] | Some x \<Rightarrow> [(k, z_out s x)]) shape))"
  by (simp add: z_object_def map_filter_concat case_prod_unfold option.case_eq_if option.map_sel
        cong: if_cong)

text \<open>What the request schema accepts: an object whose \<open>jsonrpc\<close> is the string
  \<open>2.0\<close>, whose \<open>method\<close> is a string (any string) and whose \<open>id\<close> is a number or a
  string. So an id that is a boolean, \<open>null\<close> or an object is rejected, by the union of
  \<open>id\<close>; the refinement \<open>obj.method !== null\<close> rejects nothing that \<open>z.string()\<close>
  accepts.\<close>

lemma request_check:
  "z_check JsonRpcRequestSchema (Some v) = [] \<longleftrightarrow>
     (\<exists>kvs. v = JObj kvs
        \<and> map_of kvs ''jsonrpc'' = Some (JStr ''2.0'')
        \<and> (\<exists>m. map_of kvs ''method'' = Some (JStr m))
        \<and> ((\<exists>n. map_of kvs ''id'' = Some (JNum n)) \<or> (\<exists>s. map_of kvs ''id'' = Some (JStr s))))"
  by (auto simp: JsonRpcRequestSchema_def check_simps field_def)

lemma request_schema_accepts:
  "success (safeParse JsonRpcRequestSchema v) \<longleftrightarrow>
     (\<exists>kvs. v = JObj kvs
        \<and> map_of kvs ''jsonrpc'' = Some (JStr ''2.0'')
        \<and> (\<exists>m. map_of kvs ''method'' = Some (JStr m))
        \<and> ((\<exists>n. map_of kvs ''id'' = Some (JNum n)) \<or> (\<exists>s. map_of kvs ''id'' = Some (JStr s))))"
  unfolding success_safeParse by (rule request_check)

lemma request_out:
  "z_out JsonRpcRequestSchema (JObj kvs) =
     JObj ((case map_of kvs ''jsonrpc'' of None \<Rightarrow> [] | Some x \<Rightarrow> [(''jsonrpc'', x)])
         @ (case map_of kvs ''method'' of None \<Rightarrow> [] | Some x \<Rightarrow> [(''method'', x)])
         @ (case map_of kvs ''params'' of None \<Rightarrow> [] | Some x \<Rightarrow> [(''params'', x)])
         @ (case map_of kvs ''id'' of None \<Rightarrow> [] | Some x \<Rightarrow> [(''id'', x)]))"
  by (simp add: JsonRpcRequestSchema_def z_refine_def object_out z_literal_def z_any_def z_union_def
        z_number_def z_string_def z_optional_def split: option.splits)


subsection \<open>The request schema and the dispatcher\<close>

text \<open>
  Claim C8 (a Request validates if and only if it has the version \<open>2.0\<close>, a non-empty
  string method, optional params and a string or number id) does not hold of the
  schema: the request of the test \<open>Request with empty method should fail\<close>, with the
  empty string as method, is accepted and returned as parsed data.
\<close>

theorem request_empty_method_accepted:
  "safeParse JsonRpcRequestSchema
     (JObj [(''jsonrpc'', JStr ''2.0''), (''method'', JStr ''''), (''id'', JStr ''test-id'')])
   = Inr (JObj [(''jsonrpc'', JStr ''2.0''), (''method'', JStr ''''), (''id'', JStr ''test-id'')])"
  by (simp add: schema_defs)

text \<open>
  Claim C2 as stated fails: the decoded value \<open>{jsonrpc: "1.0", method: "log"}\<close> has
  no \<open>id\<close>, fails the notification schema (wrong version), and \<open>handleMessage\<close> returns
  an error response for it, not \<open>null\<close>.
\<close>

theorem notification_shape_failure_counterexample:
  "js_in ''id'' (JObj [(''jsonrpc'', JStr ''1.0''), (''method'', JStr ''log'')]) = Some False
   \<and> \<not> success (safeParse JsonRpcNotificationSchema
          (JObj [(''jsonrpc'', JStr ''1.0''), (''method'', JStr ''log'')]))
   \<and> handleMessage JsonRpcErrorCodes (\<lambda>e. []) \<lparr>handlers = Map.empty, notifications = None\<rparr>
        (JObj [(''jsonrpc'', JStr ''1.0''), (''method'', JStr ''log'')])
      = Inr (Some (ErrorResponse (Some JNull) (- 32600) (JStr ''invalid JSON RPC request: '') None))"
  by (simp add: handleMessage_def js_in_def schema_defs JsonRpcErrorCodes_def)

text \<open>
  Claim C2, amended. For every decoded value on which \<open>'id' in value\<close> is false (an
  object without the key \<open>id\<close>, or an array) and which fails the notification schema,
  \<open>handleMessage\<close> returns an error response with the code \<open>INVALID_REQUEST\<close>, the id
  \<open>null\<close> and a message that starts with \<open>invalid JSON RPC request: \<close> and carries the
  text of the validation error.
\<close>

theorem notification_shape_failure:
  assumes "js_in ''id'' serverMessage = Some False"
    and "safeParse JsonRpcNotificationSchema serverMessage = Inl error"
  shows "handleMessage codes render srv serverMessage =
           Inr (Some (ErrorResponse (Some JNull) (INVALID_REQUEST codes)
                        (JStr (''invalid JSON RPC request: '' @ render error)) None))"
  using assms by (simp add: handleMessage_def)

text \<open>The witness: a notification with an extra field, \<open>{jsonrpc: "2.0", method: "log",
  extra: 1}\<close>, which the strict schema refuses.\<close>

theorem notification_shape_failure_witness:
  "js_in ''id'' (JObj [(''jsonrpc'', JStr ''2.0''), (''method'', JStr ''log''), (''extra'', JNum 1)])
     = Some False
   \<and> safeParse JsonRpcNotificationSchema
        (JObj [(''jsonrpc'', JStr ''2.0''), (''method'', JStr ''log''), (''extra'', JNum 1)])
     = Inl (ZodError [Issue [] ''unrecognized_keys''])
   \<and> handleMessage JsonRpcErrorCodes (\<lambda>e. ''unrecognized key'')
        \<lparr>handlers = Map.empty, notifications = None\<rparr>
        (JObj [(''jsonrpc'', JStr ''2.0''), (''method'', JStr ''log''), (''extra'', JNum 1)])
     = Inr (Some (ErrorResponse (Some JNull) (- 32600)
              (JStr ''invalid JSON RPC request: unrecognized key'') None))"
proof -
  let ?m = "JObj [(''jsonrpc'', JStr ''2.0''), (''method'', JStr ''log''), (''extra'', JNum 1)]"
  have a: "js_in ''id'' ?m = Some False" by (simp add: js_in_def)
  have b: "safeParse JsonRpcNotificationSchema ?m = Inl (ZodError [Issue [] ''unrecognized_keys''])"
    by (simp add: schema_defs)
  from a b notification_shape_failure[OF a b, of JsonRpcErrorCodes "\<lambda>e. ''unrecognized key''"
      "\<lparr>handlers = Map.empty, notifications = None\<rparr>"]
  show ?thesis by (simp add: JsonRpcErrorCodes_def)
qed

text \<open>A validated request keeps its id.\<close>

lemma request_data_has_id:
  assumes "js_in ''id'' serverMessage = Some True"
    and "safeParse JsonRpcRequestSchema serverMessage = Inr data"
  shows "js_in ''id'' data = Some True" and "hasOwn data ''id''"
    and "field ''id'' data = field ''id'' serverMessage"
    and "is_string_or_number (field ''id'' data)"
proof -
  from assms(2) have c: "z_check JsonRpcRequestSchema (Some serverMessage) = []"
    and d: "data = z_out JsonRpcRequestSchema serverMessage"
    by (simp_all add: safeParse_Inr)
  from c obtain kvs m where v: "serverMessage = JObj kvs"
    and j: "map_of kvs ''jsonrpc'' = Some (JStr ''2.0'')"
    and m: "map_of kvs ''method'' = Some (JStr m)"
    and i: "(\<exists>n. map_of kvs ''id'' = Some (JNum n)) \<or> (\<exists>s. map_of kvs ''id'' = Some (JStr s))"
    unfolding request_check by blast
  from i obtain x where x: "map_of kvs ''id'' = Some x" "is_string_or_number (Some x)"
    by (auto simp: is_string_or_number_def)
  have data: "data = JObj ([(''jsonrpc'', JStr ''2.0''), (''method'', JStr m)]
         @ (case map_of kvs ''params'' of None \<Rightarrow> [] | Some p \<Rightarrow> [(''params'', p)])
         @ [(''id'', x)])"
    unfolding d v request_out by (simp add: j m x)
  show "js_in ''id'' data = Some True" unfolding data by (simp add: js_in_def split: option.splits)
  show "hasOwn data ''id''" unfolding data by (simp add: hasOwn_def split: option.splits)
  show "field ''id'' data = field ''id'' serverMessage"
    unfolding data v by (simp add: field_def x split: option.splits)
  then show "is_string_or_number (field ''id'' data)" using x by (simp add: v field_def)
qed

text \<open>What the dispatcher does hold for a handler that throws a truthy value that is
  not a \<open>JsonRpcError\<close>: an error response with the code \<open>INTERNAL_SERVER_ERROR\<close>, the
  thrown value's message (or the fallback text) and the id of the request.\<close>

lemma handleMessage_truthy_throw:
  assumes "js_in ''id'' serverMessage = Some True"
    and "safeParse JsonRpcRequestSchema serverMessage = Inr data"
    and "handlers srv (template (field ''method'' data)) = Some m"
    and "paramsSchema m (field ''params'' data) = Inr params"
    and "handler m params = Throws e"
    and "e = ThrownError msg \<or> (e = ThrownValue v \<and> truthy_opt v)"
  shows "handleMessage codes render srv serverMessage =
           Inr (Some (ErrorResponse (field ''id'' serverMessage) (INTERNAL_SERVER_ERROR codes)
                        (thrown_message e) None))"
  using assms request_data_has_id[OF assms(1,2)]
  by (auto simp: handleMessage_def handleRpcRequest_def)

text \<open>
  Claim C6 (a handler that throws a value outside the taxonomy, falsy values included,
  gives an error response with the code InternalServerError and the id of the request)
  does not hold of the dispatcher for falsy values: when the handler of a valid request
  with a registered method and valid params throws \<open>undefined\<close>, \<open>null\<close>, \<open>0\<close>, the
  empty string or \<open>false\<close>, \<open>handleMessage\<close> returns \<open>null\<close>, and the request gets no
  response at all.
\<close>

theorem handleMessage_falsy_throw:
  assumes "js_in ''id'' serverMessage = Some True"
    and "safeParse JsonRpcRequestSchema serverMessage = Inr data"
    and "handlers srv (template (field ''method'' data)) = Some m"
    and "paramsSchema m (field ''params'' data) = Inr params"
    and "handler m params = Throws (ThrownValue v)"
    and "\<not> truthy_opt v"
  shows "handleMessage codes render srv serverMessage = Inr None"
  using assms request_data_has_id(1)[OF assms(1,2)]
  by (simp add: handleMessage_def handleRpcRequest_def)

text \<open>The witness: the request \<open>{jsonrpc: "2.0", method: "throw_error", params: {},
  id: "test-5"}\<close> of the server's tests, with a handler that rejects without a reason
  (it throws \<open>undefined\<close>).\<close>

theorem handleMessage_falsy_throw_witness:
  "handleMessage JsonRpcErrorCodes (\<lambda>e. [])
     \<lparr>handlers = [''throw_error'' \<mapsto>
          \<lparr>paramsSchema = (\<lambda>p. case p of None \<Rightarrow> Inl (ZodError []) | Some x \<Rightarrow> Inr x),
           handler = (\<lambda>p. Throws (ThrownValue None))\<rparr>],
      notifications = None\<rparr>
     (JObj [(''jsonrpc'', JStr ''2.0''), (''method'', JStr ''throw_error''),
            (''params'', JObj []), (''id'', JStr ''test-5'')])
   = Inr None"
proof -
  let ?msg = "JObj [(''jsonrpc'', JStr ''2.0''), (''method'', JStr ''throw_error''),
            (''params'', JObj []), (''id'', JStr ''test-5'')]"
  let ?h = "\<lparr>paramsSchema = (\<lambda>p. case p of None \<Rightarrow> Inl (ZodError []) | Some x \<Rightarrow> Inr x),
           handler = (\<lambda>p. Throws (ThrownValue None))\<rparr>"
  let ?srv = "\<lparr>handlers = [''throw_error'' \<mapsto> ?h], notifications = None\<rparr>"
  have 1: "js_in ''id'' ?msg = Some True" by (simp add: js_in_def)
  have 2: "safeParse JsonRpcRequestSchema ?msg = Inr ?msg" by (simp add: schema_defs)
  have 3: "handlers ?srv (template (field ''method'' ?msg)) = Some ?h"
    by (simp add: template_def field_def)
  have 4: "paramsSchema ?h (field ''params'' ?msg) = Inr (JObj [])" by (simp add: field_def)
  have 5: "handler ?h (JObj []) = Throws (ThrownValue None)" by simp
  have 6: "\<not> truthy_opt None" by (simp add: truthy_opt_def)
  show ?thesis by (rule handleMessage_falsy_throw[OF 1 2 3 4 5 6])
qed


section \<open>Properties of the client correlation engine\<close>

lemmas client_defs = run_def call_def generateId_def timerFires_def handleResponse_def
  cancelPendingRequests_def clearTimeout_def client_new_def completions_def
  isJsonRpcSuccessResponse_def isJsonRpcErrorResponse_def hasOwn_def Let_def

subsection \<open>A parsed response is a success or an error response\<close>

lemma success_check:
  "z_check JsonRpcSuccessResponseSchema (Some v) = [] \<longleftrightarrow>
     (\<exists>kvs. v = JObj kvs \<and> map_of kvs ''jsonrpc'' = Some (JStr ''2.0'')
        \<and> ((\<exists>n. map_of kvs ''id'' = Some (JNum n)) \<or> (\<exists>s. map_of kvs ''id'' = Some (JStr s))))"
  by (auto simp: JsonRpcSuccessResponseSchema_def check_simps)

lemma success_out:
  "z_out JsonRpcSuccessResponseSchema (JObj kvs) =
     JObj ((case map_of kvs ''jsonrpc'' of None \<Rightarrow> [] | Some x \<Rightarrow> [(''jsonrpc'', x)])
         @ (case map_of kvs ''result'' of None \<Rightarrow> [] | Some x \<Rightarrow> [(''result'', x)])
         @ (case map_of kvs ''id'' of None \<Rightarrow> [] | Some x \<Rightarrow> [(''id'', x)]))"
  by (simp add: JsonRpcSuccessResponseSchema_def object_out z_literal_def z_any_def z_union_def
        z_number_def z_string_def split: option.splits)

lemma error_check:
  "z_check JsonRpcErrorResponseSchema (Some v) = [] \<longleftrightarrow>
     (\<exists>kvs ekvs. v = JObj kvs \<and> map_of kvs ''jsonrpc'' = Some (JStr ''2.0'')
        \<and> ((\<exists>n. map_of kvs ''id'' = Some (JNum n)) \<or> (\<exists>s. map_of kvs ''id'' = Some (JStr s))
            \<or> map_of kvs ''id'' = Some JNull)
        \<and> map_of kvs ''error'' = Some (JObj ekvs)
        \<and> (\<exists>n. map_of ekvs ''code'' = Some (JNum n))
        \<and> (\<exists>m. map_of ekvs ''message'' = Some (JStr m)))"
proof -
  have inner: "z_check (z_object False [(''code'', z_number), (''message'', z_string),
                  (''data'', z_optional z_any)]) e = [] \<longleftrightarrow>
        (\<exists>ekvs. e = Some (JObj ekvs) \<and> (\<exists>n. map_of ekvs ''code'' = Some (JNum n))
            \<and> (\<exists>m. map_of ekvs ''message'' = Some (JStr m)))" for e
  proof (cases e)
    case None
    then show ?thesis by (simp add: z_object_def)
  next
    case (Some x)
    then show ?thesis by (auto simp: check_simps)
  qed
  show ?thesis
    by (auto simp: JsonRpcErrorResponseSchema_def check_object check_literal check_union
          check_number check_string check_null inner)
qed

lemma error_out:
  "map_of kvs ''error'' = Some (JObj ekvs) \<Longrightarrow>
   z_out JsonRpcErrorResponseSchema (JObj kvs) =
     JObj ((case map_of kvs ''jsonrpc'' of None \<Rightarrow> [] | Some x \<Rightarrow> [(''jsonrpc'', x)])
         @ (case map_of kvs ''id'' of None \<Rightarrow> [] | Some x \<Rightarrow> [(''id'', x)])
         @ [(''error'', JObj (
              (case map_of ekvs ''code'' of None \<Rightarrow> [] | Some x \<Rightarrow> [(''code'', x)])
            @ (case map_of ekvs ''message'' of None \<Rightarrow> [] | Some x \<Rightarrow> [(''message'', x)])
            @ (case map_of ekvs ''data'' of None \<Rightarrow> [] | Some x \<Rightarrow> [(''data'', x)])))])"
  by (simp add: JsonRpcErrorResponseSchema_def object_out z_literal_def z_any_def z_union_def
        z_number_def z_string_def z_null_def z_optional_def split: option.splits)

lemma union2_check:
  "z_check (z_union [a, b]) v = [] \<longleftrightarrow> z_check a v = [] \<or> z_check b v = []"
  by (simp add: z_union_def)

lemma union2_out:
  "z_out (z_union [a, b]) v =
     (if z_check a (Some v) = [] then z_out a v
      else if z_check b (Some v) = [] then z_out b v else v)"
  by (simp add: z_union_def)

lemma response_guard:
  assumes "safeParse JsonRpcResponseSchema v = Inr r"
  shows "isJsonRpcSuccessResponse r \<or> isJsonRpcErrorResponse r"
proof (cases "z_check JsonRpcSuccessResponseSchema (Some v) = []")
  case True
  then obtain kvs where v: "v = JObj kvs" and j: "map_of kvs ''jsonrpc'' = Some (JStr ''2.0'')"
    and i: "(\<exists>n. map_of kvs ''id'' = Some (JNum n)) \<or> (\<exists>s. map_of kvs ''id'' = Some (JStr s))"
    unfolding success_check by blast
  from assms True have r: "r = z_out JsonRpcSuccessResponseSchema v"
    by (simp add: safeParse_Inr JsonRpcResponseSchema_def union2_check union2_out)
  have "isJsonRpcSuccessResponse r"
    unfolding isJsonRpcSuccessResponse_def success_safeParse r v success_out success_check
    using j i by (auto simp: hasOwn_def split: option.splits)
  then show ?thesis ..
next
  case False
  with assms have e: "z_check JsonRpcErrorResponseSchema (Some v) = []"
    and r: "r = z_out JsonRpcErrorResponseSchema v"
    by (simp_all add: safeParse_Inr JsonRpcResponseSchema_def union2_check union2_out)
  from e obtain kvs ekvs where v: "v = JObj kvs" and j: "map_of kvs ''jsonrpc'' = Some (JStr ''2.0'')"
    and i: "(\<exists>n. map_of kvs ''id'' = Some (JNum n)) \<or> (\<exists>s. map_of kvs ''id'' = Some (JStr s))
            \<or> map_of kvs ''id'' = Some JNull"
    and er: "map_of kvs ''error'' = Some (JObj ekvs)"
    and c: "\<exists>n. map_of ekvs ''code'' = Some (JNum n)"
    and m: "\<exists>m. map_of ekvs ''message'' = Some (JStr m)"
    unfolding error_check by blast
  have "isJsonRpcErrorResponse r"
    unfolding isJsonRpcErrorResponse_def success_safeParse r v error_out[OF er] error_check
    using j i c m by (auto split: option.splits)
  then show ?thesis ..
qed


subsection \<open>The invariant of the pending table\<close>

lemma client_invD:
  assumes "client_inv cfg s"
  shows "distinct (map fst (pendingRequests s))"
    and "distinct (map (\<lambda>e. pr_promise (snd e)) (pendingRequests s))"
    and "\<And>requestId pr. map_of (pendingRequests s) requestId = Some pr \<Longrightarrow>
           pr_timeout pr = Some (pr_promise pr)
           \<and> (\<exists>tm. map_of (timers s) (pr_promise pr) = Some tm
                  \<and> tm_requestId tm = requestId \<and> tm_promise tm = pr_promise pr)"
    and "\<And>t tm. map_of (timers s) t = Some tm \<Longrightarrow>
           tm_promise tm = t \<and> t < calls s
           \<and> (\<exists>pr. map_of (pendingRequests s) (tm_requestId tm) = Some pr \<and> pr_promise pr = t)"
    and "\<And>p. completions p s = (if p < calls s \<and> map_of (timers s) p = None then 1 else 0)"
    and "\<And>requestId pr. map_of (pendingRequests s) requestId = Some pr \<Longrightarrow> issued cfg s requestId"
  using assms unfolding client_inv_def by blast+

lemma client_invI:
  assumes "distinct (map fst (pendingRequests s))"
    and "distinct (map (\<lambda>e. pr_promise (snd e)) (pendingRequests s))"
    and "\<And>requestId pr. map_of (pendingRequests s) requestId = Some pr \<Longrightarrow>
           pr_timeout pr = Some (pr_promise pr)
           \<and> (\<exists>tm. map_of (timers s) (pr_promise pr) = Some tm
                  \<and> tm_requestId tm = requestId \<and> tm_promise tm = pr_promise pr)"
    and "\<And>t tm. map_of (timers s) t = Some tm \<Longrightarrow>
           tm_promise tm = t \<and> t < calls s
           \<and> (\<exists>pr. map_of (pendingRequests s) (tm_requestId tm) = Some pr \<and> pr_promise pr = t)"
    and "\<And>p. completions p s = (if p < calls s \<and> map_of (timers s) p = None then 1 else 0)"
    and "\<And>requestId pr. map_of (pendingRequests s) requestId = Some pr \<Longrightarrow> issued cfg s requestId"
  shows "client_inv cfg s"
  unfolding client_inv_def using assms by blast

lemma issued_upd [simp]:
  "issued cfg (s\<lparr>pendingRequests := a\<rparr>) = issued cfg s"
  "issued cfg (s\<lparr>timers := b\<rparr>) = issued cfg s"
  "issued cfg (s\<lparr>settled := c\<rparr>) = issued cfg s"
  "issued cfg (s\<lparr>shuttingDown := d\<rparr>) = issued cfg s"
  "issued cfg (s\<lparr>calls := e\<rparr>) = issued cfg s"
  "issued cfg (s\<lparr>sent := f\<rparr>) = issued cfg s"
  by (simp_all add: issued_def fun_eq_iff split: option.splits)

lemma inv_new: "client_inv cfg client_new"
  by (simp add: client_inv_def client_new_def completions_def)

lemma inv_shutdown: "client_inv cfg s \<Longrightarrow> client_inv cfg (s\<lparr>shuttingDown := True\<rparr>)"
  by (simp add: client_inv_def completions_def del: map_of_eq_Some_iff)

text \<open>Removing a pending request together with its timer, and settling its promise once.\<close>

lemma inv_remove:
  assumes inv: "client_inv cfg s"
    and pr: "map_of (pendingRequests s) requestId = Some pr"
  shows "client_inv cfg
           (s\<lparr>pendingRequests := AList.delete requestId (pendingRequests s),
              timers := AList.delete (pr_promise pr) (timers s),
              settled := settled s @ [(pr_promise pr, outcome)]\<rparr>)"
    (is "client_inv cfg ?s'")
proof -
  note d = client_invD[OF inv]
  from d(3)[OF pr] obtain tm where tm: "map_of (timers s) (pr_promise pr) = Some tm"
    "tm_requestId tm = requestId" by blast
  have other: "pr_promise pr' \<noteq> pr_promise pr"
    if "map_of (pendingRequests s) r' = Some pr'" "r' \<noteq> requestId" for r' pr'
  proof
    assume "pr_promise pr' = pr_promise pr"
    with d(3)[OF that(1)] tm that(2) show False by auto
  qed
  have 1: "distinct (map fst (pendingRequests ?s'))"
    using d(1) by (simp add: distinct_delete)
  have 2: "distinct (map (\<lambda>e. pr_promise (snd e)) (pendingRequests ?s'))"
    using d(2) by (simp add: AList.delete_eq distinct_map_filter)
  have 3: "pr_timeout pr' = Some (pr_promise pr')
           \<and> (\<exists>tm. map_of (timers ?s') (pr_promise pr') = Some tm
                  \<and> tm_requestId tm = r' \<and> tm_promise tm = pr_promise pr')"
    if "map_of (pendingRequests ?s') r' = Some pr'" for r' pr'
  proof -
    from that have a: "r' \<noteq> requestId" "map_of (pendingRequests s) r' = Some pr'"
      by (auto simp: delete_conv' split: if_splits)
    from other[OF a(2,1)] d(3)[OF a(2)] show ?thesis by (simp add: delete_conv')
  qed
  have 4: "tm_promise tm' = t \<and> t < calls ?s'
           \<and> (\<exists>pr. map_of (pendingRequests ?s') (tm_requestId tm') = Some pr \<and> pr_promise pr = t)"
    if "map_of (timers ?s') t = Some tm'" for t tm'
  proof -
    from that have a: "t \<noteq> pr_promise pr" "map_of (timers s) t = Some tm'"
      by (auto simp: delete_conv' split: if_splits)
    from d(4)[OF a(2)] obtain pr' where p: "tm_promise tm' = t" "t < calls s"
      "map_of (pendingRequests s) (tm_requestId tm') = Some pr'" "pr_promise pr' = t" by blast
    have "tm_requestId tm' \<noteq> requestId" using p(3,4) pr a(1) by auto
    with p show ?thesis by (simp add: delete_conv')
  qed
  have lt: "pr_promise pr < calls s" using d(4)[OF tm(1)] by simp
  have 5: "completions p ?s' = (if p < calls ?s' \<and> map_of (timers ?s') p = None then 1 else 0)" for p
    using d(5)[of p] tm(1) lt by (auto simp: completions_def delete_conv')
  have 6: "issued cfg ?s' r'" if "map_of (pendingRequests ?s') r' = Some pr'" for r' pr'
  proof -
    from that have "map_of (pendingRequests s) r' = Some pr'"
      by (auto simp: delete_conv' split: if_splits)
    from d(6)[OF this] show ?thesis by simp
  qed
  show ?thesis by (rule client_invI) (fact 1, fact 2, fact 3, fact 4, fact 5, fact 6)
qed

lemma inv_timerFires:
  assumes inv: "client_inv cfg s"
  shows "client_inv cfg (timerFires cfg t s)"
proof (cases "map_of (timers s) t")
  case None
  then show ?thesis using inv by (simp add: timerFires_def)
next
  case (Some tm)
  from client_invD(4)[OF inv Some] obtain pr where p: "tm_promise tm = t"
    "map_of (pendingRequests s) (tm_requestId tm) = Some pr" "pr_promise pr = t" by blast
  have "timerFires cfg t s =
          s\<lparr>pendingRequests := AList.delete (tm_requestId tm) (pendingRequests s),
            timers := AList.delete (pr_promise pr) (timers s),
            settled := settled s @ [(pr_promise pr,
               Rejected (Error (''Request '' @ js_string (tm_requestId tm) @ '' timed out after ''
                                          @ show_int (defaultRequestTimeout cfg) @ ''ms'')))]\<rparr>"
    using Some p by (simp add: timerFires_def Let_def)
  then show ?thesis using inv_remove[OF inv p(2)] by simp
qed

lemma inv_handleResponse:
  assumes inv: "client_inv cfg s"
  shows "client_inv cfg (handleResponse cfg render decoded s)"
proof -
  {
    fix responseObject response requestId pendingRequest
    assume sp: "safeParse JsonRpcResponseSchema responseObject = Inr response"
      and pr: "map_of (pendingRequests s) requestId = Some pendingRequest"
    let ?s2 = "s\<lparr>pendingRequests := AList.delete requestId (pendingRequests s),
                  timers := AList.delete (pr_promise pendingRequest) (timers s)\<rparr>"
    have to: "pr_timeout pendingRequest = Some (pr_promise pendingRequest)"
      using client_invD(3)[OF inv pr] by simp
    have *: "client_inv cfg (?s2\<lparr>settled := settled s @ [(pr_promise pendingRequest, outcome)]\<rparr>)" for outcome
      using inv_remove[OF inv pr, of outcome] by simp
    have "client_inv cfg
       (let s1 = s\<lparr>pendingRequests := AList.delete requestId (pendingRequests s)\<rparr>;
               s2 = s1\<lparr>timers := clearTimeout (pr_timeout pendingRequest) (timers s1)\<rparr>;
               p = pr_promise pendingRequest
           in if isJsonRpcSuccessResponse response then
                (case methods cfg (pr_method pendingRequest) of
                   Some methodDef \<Rightarrow>
                     (case cm_resultSchema methodDef (field ''result'' response) of
                        Inr validatedResult \<Rightarrow>
                          s2\<lparr>settled := settled s2 @ [(p, Resolved (Some validatedResult))]\<rparr>
                      | Inl validationError \<Rightarrow>
                          s2\<lparr>settled := settled s2 @
                            [(p, Rejected (Error (''Invalid result format: '' @ render validationError)))]\<rparr>)
                 | None \<Rightarrow> s2\<lparr>settled := settled s2 @ [(p, Resolved (field ''result'' response))]\<rparr>)
              else if isJsonRpcErrorResponse response then
                s2\<lparr>settled := settled s2 @
                  [(p, Rejected (JsonRpcError (field ''id'' response) (field ''error'' response)))]\<rparr>
              else s2)"
      using response_guard[OF sp] * by (auto simp: Let_def clearTimeout_def to split: option.splits sum.splits)
  }
  then show ?thesis using inv
    by (auto simp: handleResponse_def split: option.splits sum.splits)
qed


lemma pending_iff_armed:
  assumes inv: "client_inv cfg s"
  shows "p \<in> (\<lambda>e. pr_promise (snd e)) ` set (pendingRequests s) \<longleftrightarrow> map_of (timers s) p \<noteq> None"
proof
  note d = client_invD[OF inv]
  assume "p \<in> (\<lambda>e. pr_promise (snd e)) ` set (pendingRequests s)"
  then obtain r pr where "(r, pr) \<in> set (pendingRequests s)" "pr_promise pr = p" by auto
  then have "map_of (pendingRequests s) r = Some pr" using d(1) by simp
  from d(3)[OF this] \<open>pr_promise pr = p\<close> show "map_of (timers s) p \<noteq> None" by auto
next
  note d = client_invD[OF inv]
  assume "map_of (timers s) p \<noteq> None"
  then obtain tm where "map_of (timers s) p = Some tm" by auto
  from d(4)[OF this] obtain pr where "map_of (pendingRequests s) (tm_requestId tm) = Some pr"
    "pr_promise pr = p" by blast
  then show "p \<in> (\<lambda>e. pr_promise (snd e)) ` set (pendingRequests s)"
    by (force dest: map_of_SomeD)
qed

lemma map_of_clearTimeout:
  "map_of (clearTimeout h ts) t = (if h = Some t then None else map_of ts t)"
  by (cases h) (auto simp: clearTimeout_def delete_conv')

lemma fold_clearTimeout:
  "map_of (fold (\<lambda>(requestId, pendingRequest). clearTimeout (pr_timeout pendingRequest)) ps ts) t =
     (if Some t \<in> (\<lambda>e. pr_timeout (snd e)) ` set ps then None else map_of ts t)"
proof (induction ps arbitrary: ts)
  case Nil
  then show ?case by simp
next
  case (Cons e ps)
  show ?case
    by (cases e) (auto simp: Cons.IH map_of_clearTimeout)
qed

lemma count_distinct_map:
  "distinct (map f xs) \<Longrightarrow> length (filter (\<lambda>e. f e = p) xs) = (if p \<in> f ` set xs then 1 else 0)"
  by (induction xs) auto

lemma inv_cancel:
  assumes inv: "client_inv cfg s"
  shows "client_inv cfg (cancelPendingRequests s)"
proof -
  note d = client_invD[OF inv]
  let ?s' = "cancelPendingRequests s"
  have p: "pendingRequests ?s' = []" by (simp add: cancelPendingRequests_def)
  note mem = pending_iff_armed[OF inv]
  have t: "map_of (timers ?s') t = None" for t
  proof (cases "map_of (timers s) t")
    case None
    then show ?thesis by (simp add: cancelPendingRequests_def fold_clearTimeout)
  next
    case (Some tm)
    from d(4)[OF this] obtain pr where pr: "map_of (pendingRequests s) (tm_requestId tm) = Some pr"
      "pr_promise pr = t" by blast
    from d(3)[OF pr(1)] pr(2) have "pr_timeout pr = Some t" by simp
    moreover have "(tm_requestId tm, pr) \<in> set (pendingRequests s)" using pr(1) by (rule map_of_SomeD)
    ultimately have "Some t \<in> (\<lambda>e. pr_timeout (snd e)) ` set (pendingRequests s)" by force
    then show ?thesis by (simp add: cancelPendingRequests_def fold_clearTimeout)
  qed
  have c: "completions p ?s' = (if p < calls ?s' \<and> map_of (timers ?s') p = None then 1 else 0)" for p
  proof -
    have "completions p ?s' = completions p s
            + length (filter (\<lambda>e. pr_promise (snd e) = p) (pendingRequests s))"
      by (simp add: completions_def cancelPendingRequests_def filter_map comp_def split_beta)
    also have "\<dots> = (if p < calls s \<and> map_of (timers s) p = None then 1 else 0)
            + (if map_of (timers s) p \<noteq> None then 1 else 0)"
      using d(5)[of p] count_distinct_map[OF d(2), of p] mem[of p] by simp
    also have "\<dots> = (if p < calls s then 1 else 0)"
      using d(4)[of p] by auto
    finally show ?thesis using t[of p] by (simp add: cancelPendingRequests_def)
  qed
  show ?thesis
    by (rule client_invI) (simp_all add: p t c)
qed

lemma update_fresh: "k \<notin> fst ` set al \<Longrightarrow> AList.update k v al = al @ [(k, v)]"
  by (induction al) auto

lemma generateId_fresh:
  assumes "fresh_ids cfg" and "generateId cfg s = (requestId, s1)"
  shows "\<not> issued cfg s requestId" and "issued cfg s1 requestId"
    and "\<And>r. issued cfg s r \<Longrightarrow> issued cfg s1 r"
    and "s1 = s\<lparr>nextRequestId := nextRequestId s1, idCalls := idCalls s1\<rparr>"
  using assms
  by (auto simp: fresh_ids_def generateId_def issued_def inj_def split: option.splits)


lemma call_Inr:
  assumes "call cfg method_name params options now s = Inr s'"
  obtains requestId s1 validatedParams where
    "generateId cfg s = (requestId, s1)"
    "s' = s1\<lparr>calls := Suc (calls s1),
             timers := timers s1 @ [(calls s1,
                \<lparr> tm_delay = (case options of None \<Rightarrow> defaultRequestTimeout cfg | Some t \<Rightarrow> t),
                  tm_requestId = requestId, tm_promise = calls s1 \<rparr>)],
             pendingRequests := AList.update requestId
                \<lparr> pr_promise = calls s1, pr_method = method_name, pr_timestamp = now,
                  pr_timeout = Some (calls s1) \<rparr> (pendingRequests s1),
             sent := sent s1 @ [JObj [(''jsonrpc'', JStr ''2.0''), (''method'', JStr method_name),
                                         (''params'', validatedParams), (''id'', requestId)]]\<rparr>"
  using assms
  by (auto simp: call_def Let_def split: if_splits option.splits sum.splits prod.splits)

lemma inv_call:
  assumes inv: "client_inv cfg s" and fresh: "fresh_ids cfg"
    and c: "call cfg method_name params options now s = Inr s'"
  shows "client_inv cfg s'"
proof -
  note d = client_invD[OF inv]
  from c obtain requestId s1 validatedParams where g: "generateId cfg s = (requestId, s1)"
    and s': "s' = s1\<lparr>calls := Suc (calls s1),
             timers := timers s1 @ [(calls s1,
                \<lparr> tm_delay = (case options of None \<Rightarrow> defaultRequestTimeout cfg | Some t \<Rightarrow> t),
                  tm_requestId = requestId, tm_promise = calls s1 \<rparr>)],
             pendingRequests := AList.update requestId
                \<lparr> pr_promise = calls s1, pr_method = method_name, pr_timestamp = now,
                  pr_timeout = Some (calls s1) \<rparr> (pendingRequests s1),
             sent := sent s1 @ [JObj [(''jsonrpc'', JStr ''2.0''), (''method'', JStr method_name),
                                         (''params'', validatedParams), (''id'', requestId)]]\<rparr>"
    by (rule call_Inr)
  note f = generateId_fresh[OF fresh g]
  have same: "pendingRequests s1 = pendingRequests s" "timers s1 = timers s" "calls s1 = calls s"
    "settled s1 = settled s"
    by (subst f(4), simp)+
  let ?p = "calls s"
  let ?e = "\<lparr> pr_promise = ?p, pr_method = method_name, pr_timestamp = now, pr_timeout = Some ?p \<rparr>"
  let ?tm = "\<lparr> tm_delay = (case options of None \<Rightarrow> defaultRequestTimeout cfg | Some t \<Rightarrow> t),
                  tm_requestId = requestId, tm_promise = ?p \<rparr>"
  have nokey: "map_of (pendingRequests s) requestId = None"
  proof (cases "map_of (pendingRequests s) requestId")
    case (Some pr)
    from d(6)[OF this] f(1) show ?thesis by simp
  qed simp
  then have notin: "requestId \<notin> fst ` set (pendingRequests s)"
    by (simp add: map_of_eq_None_iff)
  have pend: "pendingRequests s' = pendingRequests s @ [(requestId, ?e)]"
    by (simp add: s' same update_fresh[OF notin])
  have tim: "timers s' = timers s @ [(?p, ?tm)]" by (simp add: s' same)
  have cal: "calls s' = Suc ?p" by (simp add: s' same)
  have notimer: "map_of (timers s) ?p = None"
  proof (cases "map_of (timers s) ?p")
    case (Some tm)
    from d(4)[OF this] show ?thesis by simp
  qed simp
  have old_lt: "pr_promise pr < ?p" if "map_of (pendingRequests s) r = Some pr" for r pr
  proof -
    from d(3)[OF that] obtain tm where "map_of (timers s) (pr_promise pr) = Some tm" by blast
    from d(4)[OF this] show ?thesis by simp
  qed
  have 1: "distinct (map fst (pendingRequests s'))"
    using d(1) notin by (simp add: pend)
  have 2: "distinct (map (\<lambda>e. pr_promise (snd e)) (pendingRequests s'))"
  proof -
    have "?p \<notin> (\<lambda>e. pr_promise (snd e)) ` set (pendingRequests s)"
    proof
      assume "?p \<in> (\<lambda>e. pr_promise (snd e)) ` set (pendingRequests s)"
      then obtain r pr where "(r, pr) \<in> set (pendingRequests s)" "pr_promise pr = ?p" by auto
      then have "map_of (pendingRequests s) r = Some pr" using d(1) by simp
      from old_lt[OF this] \<open>pr_promise pr = ?p\<close> show False by simp
    qed
    then show ?thesis using d(2) by (simp add: pend)
  qed
  have 3: "pr_timeout pr = Some (pr_promise pr)
           \<and> (\<exists>tm. map_of (timers s') (pr_promise pr) = Some tm
                  \<and> tm_requestId tm = r \<and> tm_promise tm = pr_promise pr)"
    if "map_of (pendingRequests s') r = Some pr" for r pr
  proof (cases "map_of (pendingRequests s) r")
    case None
    with that have "r = requestId" "pr = ?e"
      by (auto simp: pend map_add_def split: if_splits)
    then show ?thesis using notimer by (simp add: tim map_add_def)
  next
    case (Some pr')
    with that have "pr' = pr" by (simp add: pend map_add_def)
    with Some d(3)[OF Some] show ?thesis by (auto simp: tim map_add_def)
  qed
  have 4: "tm_promise tm = t \<and> t < calls s'
           \<and> (\<exists>pr. map_of (pendingRequests s') (tm_requestId tm) = Some pr \<and> pr_promise pr = t)"
    if "map_of (timers s') t = Some tm" for t tm
  proof (cases "map_of (timers s) t")
    case None
    with that have "t = ?p" "tm = ?tm"
      by (auto simp: tim map_add_def split: if_splits)
    then show ?thesis using nokey by (simp add: cal pend map_add_def)
  next
    case (Some tm')
    with that have "tm' = tm" by (simp add: tim map_add_def)
    with Some d(4)[OF Some] show ?thesis by (auto simp: cal pend map_add_def)
  qed
  have 5: "completions p s' = (if p < calls s' \<and> map_of (timers s') p = None then 1 else 0)" for p
  proof -
    have "completions p s' = completions p s" by (simp add: completions_def s' same)
    then show ?thesis using d(5)[of p] notimer
      by (auto simp: cal tim map_add_def split: option.splits)
  qed
  have iss: "issued cfg s' r = issued cfg s1 r" for r by (simp add: s')
  have 6: "issued cfg s' r" if "map_of (pendingRequests s') r = Some pr" for r pr
  proof (cases "map_of (pendingRequests s) r")
    case None
    with that have "r = requestId" by (auto simp: pend map_add_def split: if_splits)
    then show ?thesis using f(2) by (simp add: iss)
  next
    case (Some pr')
    from f(3)[OF d(6)[OF Some]] show ?thesis by (simp add: iss)
  qed
  show ?thesis by (rule client_invI) (fact 1, fact 2, fact 3, fact 4, fact 5, fact 6)
qed

lemma inv_step:
  assumes "client_inv cfg s" and "fresh_ids cfg"
  shows "client_inv cfg (step cfg render s ev)"
proof (cases ev)
  case (Call m params options now)
  then show ?thesis using assms inv_call[OF assms]
    by (cases "call cfg m params options now s") auto
qed (simp_all add: assms inv_handleResponse inv_timerFires inv_shutdown inv_cancel)

lemma inv_run:
  assumes "fresh_ids cfg"
  shows "client_inv cfg s \<Longrightarrow> client_inv cfg (run cfg render evs s)"
  unfolding run_def
  by (induction evs arbitrary: s) (simp_all add: inv_step[OF _ assms])


subsection \<open>The three completions\<close>

text \<open>What the timer's callback does when the pending request is still registered, and
  what \<open>handleResponse\<close> does with a response whose id matches no pending request.\<close>

lemma timerFires_registered:
  assumes "map_of (timers s) t = Some tm"
    and "map_of (pendingRequests s) (tm_requestId tm) = Some pendingRequest"
  shows "timerFires cfg t s =
           s\<lparr>timers := AList.delete t (timers s),
             pendingRequests := AList.delete (tm_requestId tm) (pendingRequests s),
             settled := settled s @
               [(tm_promise tm,
                 Rejected (Error (''Request '' @ js_string (tm_requestId tm) @ '' timed out after ''
                                  @ show_int (defaultRequestTimeout cfg) @ ''ms'')))]\<rparr>"
  using assms by (simp add: timerFires_def Let_def)

lemma handleResponse_unmatched:
  assumes "safeParse JsonRpcResponseSchema responseObject = Inr response"
    and "field ''id'' response = Some requestId"
    and "map_of (pendingRequests s) requestId = None"
  shows "handleResponse cfg render (Some responseObject) s = s"
  using assms by (simp add: handleResponse_def)

lemma dup_run:
  "run (test_config (Some (\<lambda>n. JStr ''x''))) (\<lambda>e. []) dup_events client_new =
     \<lparr> pendingRequests = [], nextRequestId = 1, shuttingDown = True, timers = [],
       calls = 2, idCalls = 2, settled = [(1, Resolved (Some (JNum 1)))],
       sent =
         [JObj [(''jsonrpc'', JStr ''2.0''), (''method'', JStr ''echo''),
                (''params'', JObj []), (''id'', JStr ''x'')],
          JObj [(''jsonrpc'', JStr ''2.0''), (''method'', JStr ''echo''),
                (''params'', JObj []), (''id'', JStr ''x'')]] \<rparr>"
  by (simp add: dup_events_def client_defs test_config_def acceptAll_def schema_defs
        show_int_def show_nat.simps)

lemma three_run:
  "run (test_config None) (\<lambda>e. []) three_events client_new =
     \<lparr> pendingRequests = [], nextRequestId = 4, shuttingDown = True, timers = [],
       calls = 3, idCalls = 0,
       settled =
         [(1, Resolved (Some (JNum 7))),
          (0, Rejected (Error ''Request 1 timed out after 30000ms'')),
          (2, Rejected (Error ''Client is shutting down''))],
       sent =
         [JObj [(''jsonrpc'', JStr ''2.0''), (''method'', JStr ''echo''),
                (''params'', JObj []), (''id'', JNum 1)],
          JObj [(''jsonrpc'', JStr ''2.0''), (''method'', JStr ''echo''),
                (''params'', JObj []), (''id'', JNum 2)],
          JObj [(''jsonrpc'', JStr ''2.0''), (''method'', JStr ''echo''),
                (''params'', JObj []), (''id'', JNum 3)]] \<rparr>"
  by (simp add: three_events_def client_defs test_config_def acceptAll_def schema_defs
        show_int_def show_nat.simps)

text \<open>
  Claim C1 as stated fails for an id generator that repeats an id. Two calls get the id
  \<open>"x"\<close>; the second entry replaces the first in the table; the response for \<open>"x"\<close>
  resolves the second call and clears its timer; the timer of the first call then finds
  no entry, and the drain finds the table empty. All timers are gone, the table is
  empty, and the promise of the first call has never been resolved or rejected.
\<close>

theorem duplicate_id_counterexample:
  "calls (run (test_config (Some (\<lambda>n. JStr ''x''))) (\<lambda>e. []) dup_events client_new) = 2
   \<and> timers (run (test_config (Some (\<lambda>n. JStr ''x''))) (\<lambda>e. []) dup_events client_new) = []
   \<and> pendingRequests (run (test_config (Some (\<lambda>n. JStr ''x''))) (\<lambda>e. []) dup_events client_new) = []
   \<and> completions 0 (run (test_config (Some (\<lambda>n. JStr ''x''))) (\<lambda>e. []) dup_events client_new) = 0"
  unfolding dup_run by (simp add: completions_def)

text \<open>
  Claim C1, amended. When the id generator never returns an id twice (the default
  generator, or a supplied one whose answers are pairwise different), then after every
  sequence of calls, delivered responses, timer firings and shutdown steps, every call
  that registered a pending request is in one of two states: its timer is still armed,
  its entry is in the table and its promise has not been settled; or its timer is gone
  (fired or cleared), its entry is gone, and its promise has been resolved or rejected
  exactly once. So no call is completed twice, and a call is completed by whichever of
  the matched response, its timer and the shutdown drain comes first.
\<close>

theorem exactly_one_completion:
  assumes "fresh_ids cfg"
  shows "\<forall>p < calls (run cfg render evs client_new).
           (if p \<in> fst ` set (timers (run cfg render evs client_new))
            then completions p (run cfg render evs client_new) = 0
                 \<and> p \<in> (\<lambda>e. pr_promise (snd e)) ` set (pendingRequests (run cfg render evs client_new))
            else completions p (run cfg render evs client_new) = 1
                 \<and> p \<notin> (\<lambda>e. pr_promise (snd e)) ` set (pendingRequests (run cfg render evs client_new)))"
proof (intro allI impI)
  fix p
  let ?s = "run cfg render evs client_new"
  assume lt: "p < calls ?s"
  have inv: "client_inv cfg ?s" by (rule inv_run[OF assms inv_new])
  have a: "p \<in> fst ` set (timers ?s) \<longleftrightarrow> map_of (timers ?s) p \<noteq> None"
    by (simp add: map_of_eq_None_iff)
  show "if p \<in> fst ` set (timers ?s)
        then completions p ?s = 0 \<and> p \<in> (\<lambda>e. pr_promise (snd e)) ` set (pendingRequests ?s)
        else completions p ?s = 1 \<and> p \<notin> (\<lambda>e. pr_promise (snd e)) ` set (pendingRequests ?s)"
    unfolding a pending_iff_armed[OF inv]
    using client_invD(5)[OF inv, of p] lt by simp
qed

text \<open>The witness: three calls with the default generator, completed by a response
  (the second call), by its timer (the first) and by the drain (the third).\<close>

theorem exactly_one_completion_witness:
  "fresh_ids (test_config None)
   \<and> calls (run (test_config None) (\<lambda>e. []) three_events client_new) = 3
   \<and> completions 0 (run (test_config None) (\<lambda>e. []) three_events client_new) = 1
   \<and> completions 1 (run (test_config None) (\<lambda>e. []) three_events client_new) = 1
   \<and> completions 2 (run (test_config None) (\<lambda>e. []) three_events client_new) = 1"
proof -
  have f: "fresh_ids (test_config None)" by (simp add: fresh_ids_def test_config_def)
  have c: "calls (run (test_config None) (\<lambda>e. []) three_events client_new) = 3"
    and t: "timers (run (test_config None) (\<lambda>e. []) three_events client_new) = []"
    unfolding three_run by simp_all
  from exactly_one_completion[OF f, of "\<lambda>e. []" three_events]
  have "\<forall>p<3. completions p (run (test_config None) (\<lambda>e. []) three_events client_new) = 1"
    unfolding c t by simp
  then show ?thesis using f c by simp
qed

text \<open>
  Claim C5 (the timeout error names the per-call timeout \<open>T\<close>) does not hold of the
  timer's callback: the timer is armed with \<open>options.timeout\<close>, but the message is built
  from \<open>this.defaultRequestTimeout\<close>. A call with the per-call timeout 100 on a client
  with the default timeout 30000 gets a timer with delay 100; when it fires, the pending
  request is removed and the promise is rejected with the message
  \<open>Request 1 timed out after 30000ms\<close>. (The rest of the claim holds: the rejection and
  the removal are \<open>timerFires_registered\<close>, and a response that arrives later matches no
  pending request and is dropped, \<open>handleResponse_unmatched\<close>.)
\<close>

theorem timeout_message_names_default:
  "map (\<lambda>e. tm_delay (snd e))
       (timers (run (test_config None) (\<lambda>e. [])
          [Call ''echo'' (Some (JObj [])) (Some 100) 0] client_new)) = [100]
   \<and> settled (run (test_config None) (\<lambda>e. [])
        [Call ''echo'' (Some (JObj [])) (Some 100) 0, TimerFires 0] client_new)
       = [(0, Rejected (Error ''Request 1 timed out after 30000ms''))]
   \<and> pendingRequests (run (test_config None) (\<lambda>e. [])
        [Call ''echo'' (Some (JObj [])) (Some 100) 0, TimerFires 0] client_new) = []"
  by (simp add: client_defs test_config_def acceptAll_def show_int_def show_nat.simps)


end
